theory Spec2Isabelle
  imports Complex_Main
begin

section \<open>Region classifier (geolocation service)\<close>

subsection \<open>Strings and the pattern fragment used by the timezone rules\<close>

text \<open>
  A JavaScript string is modelled as a \<open>string\<close>: a list of 8-bit code units, which
  covers every IANA timezone identifier (they are ASCII). \<open>toLowerCase\<close> maps the
  upper-case letters of that range (A-Z, and the Latin-1 capitals other than the
  multiplication sign) to the code unit 32 above them and leaves the rest alone.
\<close>

definition toLowerChar :: "char \<Rightarrow> char" where
  "toLowerChar c =
     (let n = (of_char c :: nat)
      in if (65 \<le> n \<and> n \<le> 90) \<or> (192 \<le> n \<and> n \<le> 222 \<and> n \<noteq> 215)
         then char_of (n + 32) else c)"

definition toLowerCase :: "string \<Rightarrow> string" where
  "toLowerCase s = map toLowerChar s"

text \<open>
  Every pattern of the rule table is a concatenation of groups, each group an
  alternation of literal strings (a plain literal is a group with one alternative),
  with no anchors. Such a pattern is a list of groups; \<open>matches_at\<close> says that the
  pattern matches a prefix of the text, and \<open>regex_test\<close> is \<open>RegExp.prototype.test\<close>:
  a match starting at some position of the text.
\<close>

type_synonym regex = "string list list"

fun startsWith :: "string \<Rightarrow> string \<Rightarrow> bool" where
  "startsWith [] s = True"
| "startsWith (p # ps) [] = False"
| "startsWith (p # ps) (c # cs) = (p = c \<and> startsWith ps cs)"

fun matches_at :: "regex \<Rightarrow> string \<Rightarrow> bool" where
  "matches_at [] s = True"
| "matches_at (alts # rest) s =
     list_ex (\<lambda>a. startsWith a s \<and> matches_at rest (drop (length a) s)) alts"

fun regex_test :: "regex \<Rightarrow> string \<Rightarrow> bool" where
  "regex_test re [] = matches_at re []"
| "regex_test re (c # cs) = (matches_at re (c # cs) \<or> regex_test re cs)"

subsection \<open>Numbers\<close>

text \<open>
  A JavaScript number is an IEEE 754 double. \<open>number\<close> has the values that the
  service compares: \<open>NaN\<close>, a finite double, given by the real number it denotes, and
  \<open>Number.POSITIVE_INFINITY\<close>, the first value of \<open>minDistance\<close>. The two zeros are one
  value: of the operations below only a division by zero and \<open>Math.atan2\<close> tell them
  apart, and in \<open>haversineDistance\<close> no divisor is zero and no argument of \<open>Math.atan2\<close>
  is the negative zero.
\<close>

datatype number = NaN | Num real | POSITIVE_INFINITY

text \<open>
  What the platform decides of the arithmetic: the double to which a real result is
  rounded (\<open>None\<close> when the result is too large for a double), the double \<open>Math.PI\<close>, and
  the results of \<open>Math.sin\<close>, \<open>Math.cos\<close>, \<open>Math.sqrt\<close> and \<open>Math.atan2\<close> on finite
  arguments, which ECMAScript leaves to the implementation within the limits stated
  further down (\<open>ieee_platform\<close>, \<open>symmetric_platform\<close>). The platform is a parameter
  of every definition that computes with numbers.
\<close>

record platform =
  round_double :: "real \<Rightarrow> real option"
  pi_double :: real
  sin_double :: "real \<Rightarrow> real"
  cos_double :: "real \<Rightarrow> real"
  sqrt_double :: "real \<Rightarrow> real"
  atan2_double :: "real \<Rightarrow> real \<Rightarrow> real"

definition rounded :: "platform \<Rightarrow> real \<Rightarrow> number" where
  "rounded pf x = (case round_double pf x of None \<Rightarrow> NaN | Some y \<Rightarrow> Num y)"

text \<open>
  The operators \<open>+\<close>, \<open>-\<close>, \<open>*\<close> and \<open>/\<close>: the exact result, rounded, and \<open>NaN\<close> when an
  operand is \<open>NaN\<close>. Where JavaScript yields an infinity (a result too large for a
  double, an infinite operand, a division by zero) the result is \<open>NaN\<close> here. For
  \<open>haversineDistance\<close> the two agree. Its divisors are 180 and 2. An infinity can only
  appear among the coordinates, in \<open>lat2 - lat1\<close>, in \<open>lng2 - lng1\<close> and in
  \<open>value * Math.PI\<close>; from there it reaches \<open>Math.sin\<close> or \<open>Math.cos\<close> through the
  multiplication by \<open>Math.PI\<close> and the divisions by 180 and 2, both are \<open>NaN\<close> on an
  infinity, and so is the distance then. What is computed from the sines and cosines,
  numbers of absolute value at most 1, is too small to overflow.
\<close>

fun js_add :: "platform \<Rightarrow> number \<Rightarrow> number \<Rightarrow> number" where
  "js_add pf (Num x) (Num y) = rounded pf (x + y)"
| "js_add pf _ _ = NaN"

fun js_sub :: "platform \<Rightarrow> number \<Rightarrow> number \<Rightarrow> number" where
  "js_sub pf (Num x) (Num y) = rounded pf (x - y)"
| "js_sub pf _ _ = NaN"

fun js_mul :: "platform \<Rightarrow> number \<Rightarrow> number \<Rightarrow> number" where
  "js_mul pf (Num x) (Num y) = rounded pf (x * y)"
| "js_mul pf _ _ = NaN"

fun js_div :: "platform \<Rightarrow> number \<Rightarrow> number \<Rightarrow> number" where
  "js_div pf (Num x) (Num y) = (if y = 0 then NaN else rounded pf (x / y))"
| "js_div pf _ _ = NaN"

text \<open>
  \<open>Math.PI\<close> and the four functions of \<open>Math\<close> that the service calls. They are \<open>NaN\<close> on
  \<open>NaN\<close>, \<open>Math.sqrt\<close> also on a negative number; no operation above yields an infinity,
  so that the other arguments they meet are finite.
\<close>

definition Math_PI :: "platform \<Rightarrow> number" where
  "Math_PI pf = Num (pi_double pf)"

fun Math_sin :: "platform \<Rightarrow> number \<Rightarrow> number" where
  "Math_sin pf (Num x) = Num (sin_double pf x)"
| "Math_sin pf _ = NaN"

fun Math_cos :: "platform \<Rightarrow> number \<Rightarrow> number" where
  "Math_cos pf (Num x) = Num (cos_double pf x)"
| "Math_cos pf _ = NaN"

fun Math_sqrt :: "platform \<Rightarrow> number \<Rightarrow> number" where
  "Math_sqrt pf (Num x) = (if x < 0 then NaN else Num (sqrt_double pf x))"
| "Math_sqrt pf _ = NaN"

fun Math_atan2 :: "platform \<Rightarrow> number \<Rightarrow> number \<Rightarrow> number" where
  "Math_atan2 pf (Num y) (Num x) = Num (atan2_double pf y x)"
| "Math_atan2 pf _ _ = NaN"

text \<open>
  The comparisons \<open>x < y\<close>, \<open>x <= y\<close> and \<open>x === y\<close>, all three false when a side is
  \<open>NaN\<close>, and \<open>Number.isFinite\<close>.
\<close>

fun less_number :: "number \<Rightarrow> number \<Rightarrow> bool" where
  "less_number (Num x) (Num y) = (x < y)"
| "less_number (Num x) POSITIVE_INFINITY = True"
| "less_number _ _ = False"



fun Number_isFinite :: "number \<Rightarrow> bool" where
  "Number_isFinite (Num x) = True"
| "Number_isFinite _ = False"

subsection \<open>The region catalogue\<close>

text \<open>
  Modelled from the spec: the type \<open>GeoRegionConfig\<close> of the module \<open>$lib/geo\<close>, which is
  not among the sources. A region is \<open>{id, name, lat, lng}\<close>; the service reads \<open>id\<close>,
  \<open>lat\<close> and \<open>lng\<close> (\<open>id\<close> is written \<open>region_id\<close> here, \<open>id\<close> being the identity function of
  HOL). The coordinates are numbers, as the type declares them; nothing keeps an entry
  from holding \<open>NaN\<close>.
\<close>

record GeoRegionConfig =
  region_id :: string
  name :: string
  lat :: number
  lng :: number

text \<open>
  The two constants \<open>GEO_REGIONS\<close> and \<open>UNKNOWN_REGION_ID\<close> that the service imports
  from the same module are the fields of \<open>geo\<close>, a parameter of every definition that
  reads them.
\<close>

record geo =
  GEO_REGIONS :: "GeoRegionConfig list"
  UNKNOWN_REGION_ID :: string

datatype GeolocationSource = Browser | Timezone | Fallback

text \<open>
  The \<open>region\<close> of a result is optional: \<open>FALLBACK_REGION\<close> is \<open>undefined\<close> when the
  catalogue has no region but the sentinel.
\<close>

record GeolocationResult =
  region :: "GeoRegionConfig option"
  source :: GeolocationSource

definition REGION_CANDIDATES :: "geo \<Rightarrow> GeoRegionConfig list" where
  "REGION_CANDIDATES g =
     filter (\<lambda>region. region_id region \<noteq> UNKNOWN_REGION_ID g) (GEO_REGIONS g)"

text \<open>\<open>xs[0]\<close> of JavaScript: \<open>undefined\<close> on the empty array.\<close>

definition first_elem :: "'a list \<Rightarrow> 'a option" where
  "first_elem xs = (case xs of [] \<Rightarrow> None | x # _ \<Rightarrow> Some x)"

definition FALLBACK_REGION :: "geo \<Rightarrow> GeoRegionConfig option" where
  "FALLBACK_REGION g =
     (case find (\<lambda>region. region_id region = ''usEast'') (REGION_CANDIDATES g) of
        Some r \<Rightarrow> Some r
      | None \<Rightarrow> first_elem (REGION_CANDIDATES g))"

subsection \<open>Timezone lookup\<close>

record matcher =
  test :: "string \<Rightarrow> bool"
  regionId :: string

definition usWest_re :: regex where
  "usWest_re = [[''america/''],
     [''los_angeles'', ''vancouver'', ''whitehorse'', ''sitka'', ''anchorage'',
      ''metlakatla'', ''juneau'', ''yakutat'', ''tijuana'', ''phoenix'', ''boise'',
      ''denver'', ''edmonton'', ''dawson'', ''hermosillo'', ''mazatlan'',
      ''yellowknife'', ''dawson_creek'']]"

definition southAmerica_re :: regex where
  "southAmerica_re = [[''america/''],
     [''argentina'', ''buenos_aires'', ''santiago'', ''sao_paulo'', ''bogota'', ''lima'',
      ''la_paz'', ''montevideo'', ''caracas'', ''asuncion'', ''guayaquil'', ''fortaleza'',
      ''bahia'', ''recife'', ''belem'', ''manaus'', ''cuiaba'', ''porto_velho'',
      ''campo_grande'', ''rio_branco'', ''maceio'', ''cayenne'', ''paramaribo'',
      ''bogota'']]"

definition america_re :: regex where
  "america_re = [[''america/'']]"

definition euCentral_re :: regex where
  "euCentral_re = [[''europe/''],
     [''berlin'', ''vienna'', ''warsaw'', ''prague'', ''budapest'', ''zurich'',
      ''amsterdam'', ''brussels'', ''stockholm'', ''oslo'', ''copenhagen'', ''rome'',
      ''madrid'', ''paris'', ''prague'', ''bucharest'', ''sofia'', ''athens'',
      ''helsinki'', ''tallinn'', ''riga'', ''vilnius'', ''belgrade'', ''zagreb'',
      ''ljubljana'', ''sarajevo'', ''skopje'', ''kiev'', ''moscow'', ''minsk'']]"

definition euWest_re :: regex where
  "euWest_re = [[''europe/''],
     [''london'', ''dublin'', ''lisbon'', ''reykjavik'', ''isle_of_man'', ''jersey'',
      ''guernsey'']]"

definition europe_re :: regex where
  "europe_re = [[''europe/'']]"

definition asiaEast_cities :: "string list" where
  "asiaEast_cities =
     [''tokyo'', ''seoul'', ''shanghai'', ''chongqing'', ''hong_kong'', ''taipei'',
      ''macau'', ''harbin'', ''urumqi'', ''pyongyang'']"

definition asiaEast_re :: regex where
  "asiaEast_re = [[''asia/''], asiaEast_cities]"

definition asiaPacific_re :: regex where
  "asiaPacific_re = [[''asia/''],
     [''singapore'', ''kuala_lumpur'', ''jakarta'', ''manila'', ''ho_chi_minh'',
      ''bangkok'', ''yangon'', ''phnom_penh'', ''vientiane'', ''calcutta'', ''kolkata'',
      ''mumbai'', ''delhi'', ''bangalore'', ''chennai'', ''kathmandu'', ''dhaka'',
      ''colombo'', ''karachi'', ''kabul'', ''tehran'', ''dubai'', ''riyadh'', ''bahrain'',
      ''qatar'', ''muscat'', ''kuwait'']]"

definition indian_re :: regex where
  "indian_re = [[''indian/'']]"

definition asia_re :: regex where
  "asia_re = [[''asia/'']]"

definition oceania_cities_re :: regex where
  "oceania_cities_re = [[''australia'', ''pacific''], [''/''],
     [''sydney'', ''melbourne'', ''brisbane'', ''perth'', ''adelaide'', ''hobart'',
      ''darwin'', ''auckland'', ''wellington'', ''fiji'', ''guam'', ''port_moresby'',
      ''noumea'', ''tahiti'', ''honolulu'']]"

definition oceania_re :: regex where
  "oceania_re = [[''australia'', ''pacific''], [''/'']]"

definition africa_cities_re :: regex where
  "africa_cities_re = [[''africa/''],
     [''cairo'', ''johannesburg'', ''lagos'', ''nairobi'', ''casablanca'', ''algiers'',
      ''tunis'', ''accra'', ''addis_ababa'', ''khartoum'', ''dar_es_salaam'', ''kampala'',
      ''harare'', ''lusaka'', ''maputo'', ''kinshasa'', ''luanda'', ''windhoek'',
      ''gaborone'', ''cape_town'']]"

definition africa_re :: regex where
  "africa_re = [[''africa/'']]"

definition azores_re :: regex where
  "azores_re = [[''atlantic/azores'']]"

definition bermuda_re :: regex where
  "bermuda_re = [[''atlantic/bermuda'']]"

definition atlantic_re :: regex where
  "atlantic_re = [[''atlantic/'']]"

text \<open>The rule table of \<open>inferRegionFromTimezone\<close>, in the order of the source.\<close>

definition matchers :: "matcher list" where
  "matchers =
     [\<lparr>test = regex_test usWest_re, regionId = ''usWest''\<rparr>,
      \<lparr>test = regex_test southAmerica_re, regionId = ''southAmerica''\<rparr>,
      \<lparr>test = regex_test america_re, regionId = ''usEast''\<rparr>,
      \<lparr>test = regex_test euCentral_re, regionId = ''euCentral''\<rparr>,
      \<lparr>test = regex_test euWest_re, regionId = ''euWest''\<rparr>,
      \<lparr>test = regex_test europe_re, regionId = ''euCentral''\<rparr>,
      \<lparr>test = regex_test asiaEast_re, regionId = ''asiaEast''\<rparr>,
      \<lparr>test = regex_test asiaPacific_re, regionId = ''asiaPacific''\<rparr>,
      \<lparr>test = regex_test indian_re, regionId = ''asiaPacific''\<rparr>,
      \<lparr>test = regex_test asia_re, regionId = ''asiaPacific''\<rparr>,
      \<lparr>test = regex_test oceania_cities_re, regionId = ''oceania''\<rparr>,
      \<lparr>test = regex_test oceania_re, regionId = ''oceania''\<rparr>,
      \<lparr>test = regex_test africa_cities_re, regionId = ''africa''\<rparr>,
      \<lparr>test = regex_test africa_re, regionId = ''africa''\<rparr>,
      \<lparr>test = regex_test azores_re, regionId = ''euWest''\<rparr>,
      \<lparr>test = regex_test bermuda_re, regionId = ''usEast''\<rparr>,
      \<lparr>test = regex_test atlantic_re, regionId = ''euWest''\<rparr>]"

text \<open>
  The loop over the rules: a rule whose test succeeds looks its region up among the
  candidates and returns it when it is there; otherwise the loop goes on. \<open>None\<close> is
  the \<open>null\<close> returned after the loop.
\<close>

fun matcher_loop :: "GeoRegionConfig list \<Rightarrow> string \<Rightarrow> matcher list \<Rightarrow> GeoRegionConfig option" where
  "matcher_loop cands tz [] = None"
| "matcher_loop cands tz (m # ms) =
     (if test m tz
      then (case find (\<lambda>item. region_id item = regionId m) cands of
              Some r \<Rightarrow> Some r
            | None \<Rightarrow> matcher_loop cands tz ms)
      else matcher_loop cands tz ms)"

definition inferRegionFromTimezone :: "geo \<Rightarrow> string \<Rightarrow> GeoRegionConfig option" where
  "inferRegionFromTimezone g timezone =
     (let tz = toLowerCase timezone in matcher_loop (REGION_CANDIDATES g) tz matchers)"

subsection \<open>Coordinate lookup\<close>

definition toRadians :: "platform \<Rightarrow> number \<Rightarrow> number" where
  "toRadians pf v = js_div pf (js_mul pf v (Math_PI pf)) (Num 180)"

definition haversineDistance ::
  "platform \<Rightarrow> number \<Rightarrow> number \<Rightarrow> number \<Rightarrow> number \<Rightarrow> number" where
  "haversineDistance pf lat1 lng1 lat2 lng2 =
     (let R = Num 6371;
          dLat = toRadians pf (js_sub pf lat2 lat1);
          dLng = toRadians pf (js_sub pf lng2 lng1);
          a = js_add pf
                (js_mul pf (Math_sin pf (js_div pf dLat (Num 2)))
                           (Math_sin pf (js_div pf dLat (Num 2))))
                (js_mul pf
                   (js_mul pf
                      (js_mul pf (Math_cos pf (toRadians pf lat1)) (Math_cos pf (toRadians pf lat2)))
                      (Math_sin pf (js_div pf dLng (Num 2))))
                   (Math_sin pf (js_div pf dLng (Num 2))));
          c = js_mul pf (Num 2) (Math_atan2 pf (Math_sqrt pf a) (Math_sqrt pf (js_sub pf (Num 1) a)))
      in js_mul pf R c)"

text \<open>The term \<open>a\<close> of \<open>haversineDistance\<close>, named for the proofs about it.\<close>

definition haversine_a ::
  "platform \<Rightarrow> number \<Rightarrow> number \<Rightarrow> number \<Rightarrow> number \<Rightarrow> number" where
  "haversine_a pf lat1 lng1 lat2 lng2 =
     (let dLat = toRadians pf (js_sub pf lat2 lat1);
          dLng = toRadians pf (js_sub pf lng2 lng1)
      in js_add pf
           (js_mul pf (Math_sin pf (js_div pf dLat (Num 2))) (Math_sin pf (js_div pf dLat (Num 2))))
           (js_mul pf
              (js_mul pf
                 (js_mul pf (Math_cos pf (toRadians pf lat1)) (Math_cos pf (toRadians pf lat2)))
                 (Math_sin pf (js_div pf dLng (Num 2))))
              (Math_sin pf (js_div pf dLng (Num 2)))))"

text \<open>
  The loop of \<open>nearestRegion\<close> over the candidates, with its two variables \<open>closest\<close>
  and \<open>minDistance\<close> passed along; \<open>qlat\<close> and \<open>qlng\<close> are the arguments \<open>lat\<close> and
  \<open>lng\<close> of the source. A region whose distance is \<open>NaN\<close> fails the comparison and is
  passed over.
\<close>

fun nearest_loop ::
  "platform \<Rightarrow> number \<Rightarrow> number \<Rightarrow> GeoRegionConfig list \<Rightarrow> GeoRegionConfig option \<Rightarrow> number
    \<Rightarrow> GeoRegionConfig option" where
  "nearest_loop pf qlat qlng [] closest minDistance = closest"
| "nearest_loop pf qlat qlng (r # rest) closest minDistance =
     (let distance = haversineDistance pf qlat qlng (lat r) (lng r)
      in if less_number distance minDistance
         then nearest_loop pf qlat qlng rest (Some r) distance
         else nearest_loop pf qlat qlng rest closest minDistance)"

definition nearestRegion :: "platform \<Rightarrow> geo \<Rightarrow> number \<Rightarrow> number \<Rightarrow> GeoRegionConfig option" where
  "nearestRegion pf g qlat qlng =
     nearest_loop pf qlat qlng (REGION_CANDIDATES g) (FALLBACK_REGION g) POSITIVE_INFINITY"

definition calculateRegionDistance ::
  "platform \<Rightarrow> GeoRegionConfig \<Rightarrow> GeoRegionConfig \<Rightarrow> number" where
  "calculateRegionDistance pf a b = haversineDistance pf (lat a) (lng a) (lat b) (lng b)"

subsection \<open>Region detection\<close>

text \<open>
  What \<open>detectUserRegion\<close> reads from its environment: the outcome of the browser's
  geolocation request (no \<open>window\<close> or no \<open>navigator.geolocation\<close>; a request that is
  rejected, which the \<open>catch\<close> turns into \<open>null\<close>; or a position), and the timezone that
  \<open>Intl.DateTimeFormat\<close> resolves (or no \<open>Intl\<close> at all).
\<close>

datatype geolocation_outcome = Unavailable | Rejected | Position number number

datatype intl_outcome = NoIntl | TimeZone string

record environment =
  geolocation :: geolocation_outcome
  intl :: intl_outcome

definition detectFromBrowserGeolocation ::
  "platform \<Rightarrow> geo \<Rightarrow> environment \<Rightarrow> GeoRegionConfig option" where
  "detectFromBrowserGeolocation pf g env =
     (case geolocation env of
        Unavailable \<Rightarrow> None
      | Rejected \<Rightarrow> None
      | Position latitude longitude \<Rightarrow> nearestRegion pf g latitude longitude)"

definition detectFromTimezone :: "geo \<Rightarrow> environment \<Rightarrow> GeoRegionConfig option" where
  "detectFromTimezone g env =
     (case intl env of
        NoIntl \<Rightarrow> None
      | TimeZone tz \<Rightarrow> if tz = [] then None else inferRegionFromTimezone g tz)"

definition detectUserRegion :: "platform \<Rightarrow> geo \<Rightarrow> environment \<Rightarrow> GeolocationResult" where
  "detectUserRegion pf g env =
     (case detectFromBrowserGeolocation pf g env of
        Some browserRegion \<Rightarrow> \<lparr>region = Some browserRegion, source = Browser\<rparr>
      | None \<Rightarrow>
          (case detectFromTimezone g env of
             Some timezoneRegion \<Rightarrow> \<lparr>region = Some timezoneRegion, source = Timezone\<rparr>
           | None \<Rightarrow> \<lparr>region = FALLBACK_REGION g, source = Fallback\<rparr>))"

subsection \<open>Platforms\<close>

text \<open>
  Facts of double arithmetic and of the functions of \<open>Math\<close> on which the properties of
  the distance rest. Rounding leaves 0 and 1 as they are, has a result for every real
  of absolute value at most 1, and does not make a negative number of one that is not;
  a cosine is at most 1 in absolute value; \<open>Math.sin(0)\<close>, \<open>Math.sqrt(0)\<close> and
  \<open>Math.atan2(0, x)\<close> for positive \<open>x\<close> are 0, and \<open>Math.sqrt(1)\<close> is 1; \<open>Math.sqrt\<close> has no
  negative result, nor has \<open>Math.atan2(y, x)\<close> when \<open>y\<close> is not negative.
\<close>

definition ieee_platform :: "platform \<Rightarrow> bool" where
  "ieee_platform pf \<longleftrightarrow>
     round_double pf 0 = Some 0 \<and> round_double pf 1 = Some 1 \<and>
     (\<forall>x. \<bar>x\<bar> \<le> 1 \<longrightarrow> round_double pf x \<noteq> None) \<and>
     (\<forall>x y. 0 \<le> x \<and> round_double pf x = Some y \<longrightarrow> 0 \<le> y) \<and>
     (\<forall>x. \<bar>cos_double pf x\<bar> \<le> 1) \<and>
     sin_double pf 0 = 0 \<and>
     sqrt_double pf 0 = 0 \<and> sqrt_double pf 1 = 1 \<and>
     (\<forall>x. 0 \<le> x \<longrightarrow> 0 \<le> sqrt_double pf x) \<and>
     (\<forall>x. 0 < x \<longrightarrow> atan2_double pf 0 x = 0) \<and>
     (\<forall>y x. 0 \<le> y \<longrightarrow> 0 \<le> atan2_double pf y x)"



text \<open>
  The platform that computes exactly, without rounding and with the functions of real
  analysis, on which the examples are run; \<open>haversine_real\<close> is the distance it
  computes.
\<close>

definition toRadians_real :: "real \<Rightarrow> real" where
  "toRadians_real v = (v * pi) / 180"

definition atan2_real :: "real \<Rightarrow> real \<Rightarrow> real" where
  "atan2_real y x =
     (if 0 < x then arctan (y / x)
      else if x < 0 \<and> 0 \<le> y then arctan (y / x) + pi
      else if x < 0 \<and> y < 0 then arctan (y / x) - pi
      else if 0 < y then pi / 2
      else if y < 0 then - (pi / 2)
      else 0)"

definition haversine_a_real :: "real \<Rightarrow> real \<Rightarrow> real \<Rightarrow> real \<Rightarrow> real" where
  "haversine_a_real lat1 lng1 lat2 lng2 =
     sin (toRadians_real (lat2 - lat1) / 2) * sin (toRadians_real (lat2 - lat1) / 2) +
     cos (toRadians_real lat1) * cos (toRadians_real lat2) * sin (toRadians_real (lng2 - lng1) / 2) *
       sin (toRadians_real (lng2 - lng1) / 2)"

definition haversine_real :: "real \<Rightarrow> real \<Rightarrow> real \<Rightarrow> real \<Rightarrow> real" where
  "haversine_real lat1 lng1 lat2 lng2 =
     6371 * (2 * atan2_real (sqrt (haversine_a_real lat1 lng1 lat2 lng2))
                            (sqrt (1 - haversine_a_real lat1 lng1 lat2 lng2)))"

definition exact_platform :: platform where
  "exact_platform =
     \<lparr>round_double = Some, pi_double = pi, sin_double = sin, cos_double = cos,
      sqrt_double = sqrt, atan2_double = atan2_real\<rparr>"


subsection \<open>Example catalogues\<close>

text \<open>
  The catalogues on which the theorems below are run: one with a region for every
  identifier of the rule table, one with a single region beside the sentinel, one
  whose first entry is not \<open>usEast\<close>, and one with two entries at the same point; and an
  entry whose latitude is not a number. Their coordinates are examples, not those of
  the application.
\<close>

definition example_geo :: geo where
  "example_geo =
     \<lparr>GEO_REGIONS =
        [\<lparr>region_id = ''usEast'', name = ''US East'', lat = Num 39, lng = Num (-77)\<rparr>,
         \<lparr>region_id = ''usWest'', name = ''US West'', lat = Num 37, lng = Num (-122)\<rparr>,
         \<lparr>region_id = ''euWest'', name = ''EU West'', lat = Num 53, lng = Num (-6)\<rparr>,
         \<lparr>region_id = ''euCentral'', name = ''EU Central'', lat = Num 50, lng = Num 8\<rparr>,
         \<lparr>region_id = ''asiaPacific'', name = ''Asia Pacific'', lat = Num 1, lng = Num 103\<rparr>,
         \<lparr>region_id = ''asiaEast'', name = ''Asia East'', lat = Num 35, lng = Num 139\<rparr>,
         \<lparr>region_id = ''southAmerica'', name = ''South America'', lat = Num (-23), lng = Num (-46)\<rparr>,
         \<lparr>region_id = ''africa'', name = ''Africa'', lat = Num (-26), lng = Num 28\<rparr>,
         \<lparr>region_id = ''oceania'', name = ''Oceania'', lat = Num (-33), lng = Num 151\<rparr>,
         \<lparr>region_id = ''unknown'', name = ''Unknown'', lat = Num 0, lng = Num 0\<rparr>],
      UNKNOWN_REGION_ID = ''unknown''\<rparr>"

definition sparse_geo :: geo where
  "sparse_geo =
     \<lparr>GEO_REGIONS =
        [\<lparr>region_id = ''usEast'', name = ''US East'', lat = Num 39, lng = Num (-77)\<rparr>,
         \<lparr>region_id = ''unknown'', name = ''Unknown'', lat = Num 0, lng = Num 0\<rparr>],
      UNKNOWN_REGION_ID = ''unknown''\<rparr>"




section \<open>Reputation store\<close>

text \<open>
  The reputation service (\<open>reputationService.ts\<close>) is not among the sources. Its model
  follows the specification of the store: \<open>record(peerId, outcome)\<close> and
  \<open>score(peerId)\<close>, with scores as real numbers. \<open>record\<close> being a keyword, the
  operation is called \<open>record_outcome\<close>; the lookup is \<open>peer_score\<close>, \<open>score\<close> being the
  field of an entry.
\<close>

text \<open>
  Modelled from the spec: the reputation service is missing from the sources. A peer
  identifier is an opaque string, unique for the lifetime of one rendezvous session.
\<close>

type_synonym PeerId = string

text \<open>
  Modelled from the spec: the reputation service is missing from the sources. The
  outcomes the coordinator reports for a chunk attempt.
\<close>

datatype outcome = Success | Failure | Timeout

text \<open>
  Modelled from the spec: the reputation service is missing from the sources. The entry
  \<open>{peerId, score, successCount, failureCount, lastUpdated}\<close>.
\<close>

record ReputationEntry =
  peerId :: PeerId
  score :: real
  successCount :: nat
  failureCount :: nat
  lastUpdated :: nat

text \<open>
  Modelled from the spec: the reputation service is missing from the sources. A proper
  fraction, the share of the failure step by which a timeout moves a score.
\<close>

typedef proper_fraction = "{x :: real. 0 < x \<and> x < 1}"
  by (rule exI [of _ "1 / 2"]) simp

text \<open>
  Modelled from the spec: the reputation service is missing from the sources. The
  fractional steps of a success and of a failure, the share of the failure step that a
  timeout costs, and the neutral default score, all of which the specification leaves
  open (it gives 0.5 as an example of the default).
\<close>

record reputation_config =
  success_step :: real
  failure_step :: real
  timeout_share :: proper_fraction
  neutral :: real

text \<open>
  Modelled from the spec: the reputation service is missing from the sources. The
  fractional step of a timeout: its share of the step of a failure.
\<close>

definition timeout_step :: "reputation_config \<Rightarrow> real" where
  "timeout_step c = Rep_proper_fraction (timeout_share c) * failure_step c"

text \<open>
  Modelled from the spec: the reputation service is missing from the sources. The steps
  of a success and of a failure are proper fractions, and the neutral score lies
  strictly between the two ends of the scale.
\<close>

definition valid_config :: "reputation_config \<Rightarrow> bool" where
  "valid_config c \<longleftrightarrow>
     0 < success_step c \<and> success_step c < 1 \<and>
     0 < failure_step c \<and> failure_step c < 1 \<and>
     0 < neutral c \<and> neutral c < 1"

text \<open>
  Modelled from the spec: the reputation service is missing from the sources. The store
  holds at most one entry for a peer.
\<close>

type_synonym reputation_store = "PeerId \<rightharpoonup> ReputationEntry"

text \<open>
  Modelled from the spec: the reputation service is missing from the sources. An entry
  is created lazily, with the neutral score.
\<close>

definition new_entry :: "reputation_config \<Rightarrow> PeerId \<Rightarrow> nat \<Rightarrow> ReputationEntry" where
  "new_entry c p now =
     \<lparr>peerId = p, score = neutral c, successCount = 0, failureCount = 0, lastUpdated = now\<rparr>"

text \<open>
  Modelled from the spec: the reputation service is missing from the sources. A success
  moves the score toward 1 by \<open>new = old + \<alpha>(1 - old)\<close> and counts a success; a failure
  or a timeout moves it toward 0 by its own fraction of the old score and counts a
  failure.
\<close>

fun apply_outcome :: "reputation_config \<Rightarrow> outcome \<Rightarrow> nat \<Rightarrow> ReputationEntry \<Rightarrow> ReputationEntry" where
  "apply_outcome c Success now e =
     e\<lparr>score := score e + success_step c * (1 - score e),
       successCount := Suc (successCount e), lastUpdated := now\<rparr>"
| "apply_outcome c Failure now e =
     e\<lparr>score := score e - failure_step c * score e,
       failureCount := Suc (failureCount e), lastUpdated := now\<rparr>"
| "apply_outcome c Timeout now e =
     e\<lparr>score := score e - timeout_step c * score e,
       failureCount := Suc (failureCount e), lastUpdated := now\<rparr>"

text \<open>
  Modelled from the spec: the reputation service is missing from the sources. The entry
  of a peer, a fresh one on the first interaction.
\<close>

definition entry_of :: "reputation_config \<Rightarrow> reputation_store \<Rightarrow> PeerId \<Rightarrow> nat \<Rightarrow> ReputationEntry" where
  "entry_of c store p now = (case store p of None \<Rightarrow> new_entry c p now | Some e \<Rightarrow> e)"

text \<open>
  Modelled from the spec: the reputation service is missing from the sources.
  \<open>record(peerId, outcome)\<close>, at the time \<open>now\<close>.
\<close>

definition record_outcome ::
  "reputation_config \<Rightarrow> reputation_store \<Rightarrow> PeerId \<Rightarrow> outcome \<Rightarrow> nat \<Rightarrow> reputation_store" where
  "record_outcome c store p out now = store(p \<mapsto> apply_outcome c out now (entry_of c store p now))"

text \<open>
  Modelled from the spec: the reputation service is missing from the sources.
  \<open>score(peerId)\<close>; an unknown peer has the neutral score and no entry is created for it.
\<close>

definition peer_score :: "reputation_config \<Rightarrow> reputation_store \<Rightarrow> PeerId \<Rightarrow> real" where
  "peer_score c store p = (case store p of None \<Rightarrow> neutral c | Some e \<Rightarrow> score e)"

text \<open>
  Modelled from the spec: the reputation service is missing from the sources. A finite
  sequence of \<open>record\<close> events, in order.
\<close>

fun record_all ::
  "reputation_config \<Rightarrow> reputation_store \<Rightarrow> (PeerId \<times> outcome \<times> nat) list \<Rightarrow> reputation_store" where
  "record_all c store [] = store"
| "record_all c store ((p, out, now) # evs) = record_all c (record_outcome c store p out now) evs"

text \<open>
  Modelled from the spec: the reputation service is missing from the sources. The same
  outcome recorded \<open>n\<close> times for one peer.
\<close>

fun record_repeat ::
  "reputation_config \<Rightarrow> PeerId \<Rightarrow> outcome \<Rightarrow> nat \<Rightarrow> nat \<Rightarrow> reputation_store \<Rightarrow> reputation_store" where
  "record_repeat c p out now 0 store = store"
| "record_repeat c p out now (Suc n) store =
     record_outcome c (record_repeat c p out now n store) p out now"

text \<open>The invariant of the store: every score lies strictly between 0 and 1.\<close>

definition scores_open :: "reputation_config \<Rightarrow> reputation_store \<Rightarrow> bool" where
  "scores_open c store \<longleftrightarrow> (\<forall>p. 0 < peer_score c store p \<and> peer_score c store p < 1)"

text \<open>An example configuration.\<close>

definition example_config :: reputation_config where
  "example_config =
     \<lparr>success_step = 1/10, failure_step = 1/2, timeout_share = Abs_proper_fraction (1/2),
      neutral = 1/2\<rparr>"

section \<open>Rendezvous channel\<close>

text \<open>
  The signaling server (\<open>server.cjs\<close>) and the client service are not among the
  sources; only their integration test is. The model follows the specification of
  the channel: registration, disconnection, and the relay of directed and broadcast
  messages to the handlers of the connected clients.
\<close>

text \<open>
  Modelled from the spec: the signaling server and its client are missing from the
  sources. The two client messages, \<open>{to, type, data}\<close> and \<open>{type, broadcast}\<close>.
\<close>

datatype envelope = Directed PeerId string string | Broadcast string string

text \<open>
  Modelled from the spec: the signaling server and its client are missing from the
  sources. A relayed message, with the sender attached by the server.
\<close>

record relayed =
  sender :: PeerId
  envelope :: envelope

text \<open>
  Modelled from the spec: the signaling server and its client are missing from the
  sources. The server's view, the connected clients in registration order and what each
  client's message handler has received so far.
\<close>

record rendezvous =
  connected :: "PeerId list"
  inbox :: "PeerId \<Rightarrow> relayed list"

text \<open>
  Modelled from the spec: the signaling server and its client are missing from the
  sources. A send on a connection that is not connected fails.
\<close>

datatype send_error = NotConnected

text \<open>
  Modelled from the spec: the signaling server and its client are missing from the
  sources. The server before any client has registered.
\<close>

definition initial_rendezvous :: rendezvous where
  "initial_rendezvous = \<lparr>connected = [], inbox = (\<lambda>_. [])\<rparr>"

text \<open>
  Modelled from the spec: the signaling server and its client are missing from the
  sources. Registration under the identifier the server issues. Identifiers are unique,
  so one that is connected already is not registered again.
\<close>

definition register_peer :: "rendezvous \<Rightarrow> PeerId \<Rightarrow> rendezvous" where
  "register_peer r p = (if p \<in> set (connected r) then r else r\<lparr>connected := connected r @ [p]\<rparr>)"

text \<open>
  Modelled from the spec: the signaling server and its client are missing from the
  sources. A disconnected client leaves the connected set.
\<close>

definition disconnect :: "rendezvous \<Rightarrow> PeerId \<Rightarrow> rendezvous" where
  "disconnect r p = r\<lparr>connected := removeAll p (connected r)\<rparr>"

text \<open>
  Modelled from the spec: the signaling server and its client are missing from the
  sources. One delivery to the handler of one client.
\<close>

definition deliver :: "relayed \<Rightarrow> rendezvous \<Rightarrow> PeerId \<Rightarrow> rendezvous" where
  "deliver m r c = r\<lparr>inbox := (inbox r)(c := inbox r c @ [m])\<rparr>"

text \<open>
  Modelled from the spec: the signaling server and its client are missing from the
  sources. The relay. A directed message goes to the named recipient when it is
  connected and is not queued otherwise; a broadcast goes to every other connected
  client, one after the other.
\<close>

definition send :: "rendezvous \<Rightarrow> PeerId \<Rightarrow> envelope \<Rightarrow> send_error + rendezvous" where
  "send r a msg =
     (if a \<notin> set (connected r) then Inl NotConnected
      else Inr (case msg of
                  Directed to ty d \<Rightarrow>
                    if to \<in> set (connected r) then deliver \<lparr>sender = a, envelope = msg\<rparr> r to else r
                | Broadcast ty b \<Rightarrow>
                    foldl (deliver \<lparr>sender = a, envelope = msg\<rparr>) r
                      (filter (\<lambda>c. c \<noteq> a) (connected r))))"

text \<open>
  Modelled from the spec: the signaling server and its client are missing from the
  sources. What happens on the channel, and a run from the start.
\<close>

datatype channel_event = Register PeerId | Disconnect PeerId | Send PeerId envelope

text \<open>
  Modelled from the spec: the signaling server and its client are missing from the
  sources. One event of the channel; a send that fails leaves the server as it was.
\<close>

fun channel_step :: "rendezvous \<Rightarrow> channel_event \<Rightarrow> rendezvous" where
  "channel_step r (Register p) = register_peer r p"
| "channel_step r (Disconnect p) = disconnect r p"
| "channel_step r (Send a msg) = (case send r a msg of Inl _ \<Rightarrow> r | Inr r' \<Rightarrow> r')"

text \<open>
  Modelled from the spec: the signaling server and its client are missing from the
  sources. The state of the server after a sequence of events from its start.
\<close>

definition channel_run :: "channel_event list \<Rightarrow> rendezvous" where
  "channel_run evs = foldl channel_step initial_rendezvous evs"

text \<open>An example run: three clients register.\<close>

definition example_events :: "channel_event list" where
  "example_events = [Register ''a'', Register ''b'', Register ''c'']"

section \<open>Multi-source download coordinator\<close>

text \<open>
  The download service (\<open>multiSourceDownloadService.ts\<close>) is not among the sources.
  The model follows the specification of the coordinator: the chunk states, the
  timeout handling and the assignment loop. Times are natural numbers.
\<close>

text \<open>
  Modelled from the spec: the download service is missing from the sources. The four
  states of a chunk.
\<close>

datatype chunk_state = Pending | InFlight PeerId nat | Completed string | Failed string

text \<open>
  Modelled from the spec: the download service is missing from the sources. The task
  \<open>{fileId, totalChunks, chunkSize, chunkStatus}\<close>, the status of chunk \<open>i\<close> at position
  \<open>i\<close> of the list.
\<close>

record DownloadTask =
  fileId :: string
  totalChunks :: nat
  chunkSize :: nat
  chunkStatus :: "chunk_state list"

text \<open>
  Modelled from the spec: the download service is missing from the sources. The
  parameters of a task, the per-peer concurrency limit and the estimated throughput and
  floor of the chunk deadline.
\<close>

record coordinator_config =
  reputation_cfg :: reputation_config
  peer_limit :: nat
  throughput :: nat
  deadline_floor :: nat

text \<open>
  Modelled from the spec: the download service is missing from the sources. A task
  together with the reputation store it reports to and, for each chunk index, the
  assignee on which the chunk has timed out since the last assignment pass (\<open>timedOut\<close>;
  the specification has the rule that reads it, not the field).
\<close>

record coordinator =
  task :: DownloadTask
  reputation :: reputation_store
  timedOut :: "nat \<Rightarrow> PeerId option"

text \<open>
  Modelled from the spec: the download service is missing from the sources. The deadline
  of a chunk, proportional to the chunk size over the estimated throughput, with a
  floor.
\<close>

definition chunk_deadline :: "coordinator_config \<Rightarrow> DownloadTask \<Rightarrow> nat" where
  "chunk_deadline cfg t = max (deadline_floor cfg) (chunkSize t div throughput cfg)"

text \<open>
  Modelled from the spec: the download service is missing from the sources. An in-flight
  chunk whose deadline has elapsed at \<open>now\<close>.
\<close>

fun deadline_elapsed :: "nat \<Rightarrow> nat \<Rightarrow> chunk_state \<Rightarrow> bool" where
  "deadline_elapsed deadline now (InFlight p startedAt) = (startedAt + deadline \<le> now)"
| "deadline_elapsed deadline now _ = False"

text \<open>
  Modelled from the spec: the download service is missing from the sources. Timeout
  handling, chunk by chunk in index order. A chunk in flight past its deadline returns
  to \<open>Pending\<close> and \<open>Timeout\<close> is recorded for its assignee.
\<close>

fun timeout_scan ::
  "reputation_config \<Rightarrow> nat \<Rightarrow> nat \<Rightarrow> chunk_state list \<Rightarrow> reputation_store
    \<Rightarrow> chunk_state list \<times> reputation_store" where
  "timeout_scan rc deadline now [] rep = ([], rep)"
| "timeout_scan rc deadline now (InFlight p startedAt # ss) rep =
     (if startedAt + deadline \<le> now
      then (let (ss', rep') = timeout_scan rc deadline now ss (record_outcome rc rep p Timeout now)
            in (Pending # ss', rep'))
      else (let (ss', rep') = timeout_scan rc deadline now ss rep
            in (InFlight p startedAt # ss', rep')))"
| "timeout_scan rc deadline now (s # ss) rep =
     (let (ss', rep') = timeout_scan rc deadline now ss rep in (s # ss', rep'))"

text \<open>
  Modelled from the spec: the download service is missing from the sources. The assignee
  of a chunk in flight past its deadline.
\<close>

fun expired_assignee :: "nat \<Rightarrow> nat \<Rightarrow> chunk_state \<Rightarrow> PeerId option" where
  "expired_assignee deadline now (InFlight p startedAt) =
     (if startedAt + deadline \<le> now then Some p else None)"
| "expired_assignee deadline now _ = None"

text \<open>
  Modelled from the spec: the download service is missing from the sources. The chunks
  that time out at \<open>now\<close> are noted with their assignees; the notes of the other chunks
  stay.
\<close>

definition note_timeouts ::
  "nat \<Rightarrow> nat \<Rightarrow> chunk_state list \<Rightarrow> (nat \<Rightarrow> PeerId option) \<Rightarrow> nat \<Rightarrow> PeerId option" where
  "note_timeouts deadline now ss noted i =
     (if i < length ss
      then (case expired_assignee deadline now (ss ! i) of Some p \<Rightarrow> Some p | None \<Rightarrow> noted i)
      else noted i)"

text \<open>
  Modelled from the spec: the download service is missing from the sources. The timeout
  handling of a task at the time \<open>now\<close>.
\<close>

definition timeout_pass :: "coordinator_config \<Rightarrow> nat \<Rightarrow> coordinator \<Rightarrow> coordinator" where
  "timeout_pass cfg now co =
     (let (ss, rep) = timeout_scan (reputation_cfg cfg) (chunk_deadline cfg (task co)) now
                        (chunkStatus (task co)) (reputation co)
      in \<lparr>task = (task co)\<lparr>chunkStatus := ss\<rparr>, reputation = rep,
          timedOut = note_timeouts (chunk_deadline cfg (task co)) now (chunkStatus (task co))
                       (timedOut co)\<rparr>)"

text \<open>
  Modelled from the spec: the download service is missing from the sources. The
  assignees of the chunks that time out, in index order.
\<close>

fun expired_peers :: "nat \<Rightarrow> nat \<Rightarrow> chunk_state list \<Rightarrow> PeerId list" where
  "expired_peers deadline now [] = []"
| "expired_peers deadline now (InFlight p startedAt # ss) =
     (if startedAt + deadline \<le> now then p # expired_peers deadline now ss
      else expired_peers deadline now ss)"
| "expired_peers deadline now (s # ss) = expired_peers deadline now ss"

text \<open>
  Modelled from the spec: the download service is missing from the sources. Whether a
  chunk is in flight to a given peer.
\<close>

fun assigned_to :: "PeerId \<Rightarrow> chunk_state \<Rightarrow> bool" where
  "assigned_to p (InFlight q startedAt) = (q = p)"
| "assigned_to p _ = False"

text \<open>
  Modelled from the spec: the download service is missing from the sources. The number
  of chunks in flight to a peer.
\<close>

definition in_flight_count :: "chunk_state list \<Rightarrow> PeerId \<Rightarrow> nat" where
  "in_flight_count ss p = length (filter (assigned_to p) ss)"

text \<open>
  Modelled from the spec: the download service is missing from the sources. A candidate
  is eligible while its in-flight assignments are below the per-peer concurrency limit.
\<close>

definition eligible :: "nat \<Rightarrow> chunk_state list \<Rightarrow> PeerId \<Rightarrow> bool" where
  "eligible limit ss p \<longleftrightarrow> in_flight_count ss p < limit"

text \<open>
  Modelled from the spec: the download service is missing from the sources. \<open>q\<close> is
  ranked above \<open>p\<close> in a candidate list.
\<close>

definition better_ranked :: "PeerId list \<Rightarrow> PeerId \<Rightarrow> PeerId \<Rightarrow> bool" where
  "better_ranked candidates q p \<longleftrightarrow> q \<in> set (takeWhile (\<lambda>x. x \<noteq> p) candidates)"

text \<open>
  Modelled from the spec: the download service is missing from the sources. A chunk that
  has just timed out on a peer is not retried against that peer while the candidate list
  ranks another candidate above it: \<open>noted\<close> is the assignee the chunk timed out on, if
  any, and \<open>q\<close> the candidate considered.
\<close>

definition retry_barred :: "PeerId list \<Rightarrow> PeerId option \<Rightarrow> PeerId \<Rightarrow> bool" where
  "retry_barred candidates noted q \<longleftrightarrow>
     noted = Some q \<and> list_ex (\<lambda>x. better_ranked candidates x q) candidates"

text \<open>
  Modelled from the spec: the download service is missing from the sources. The
  assignment of one chunk. A pending chunk goes to the highest-ranked candidate of the
  list that is eligible and not barred for this chunk, and stays pending when there is
  none.
\<close>

definition assign_chunk ::
  "nat \<Rightarrow> PeerId list \<Rightarrow> (nat \<Rightarrow> PeerId option) \<Rightarrow> nat \<Rightarrow> chunk_state list \<Rightarrow> nat
    \<Rightarrow> chunk_state list" where
  "assign_chunk limit candidates noted now ss i =
     (if i < length ss \<and> ss ! i = Pending
      then (case find (\<lambda>q. eligible limit ss q \<and> \<not> retry_barred candidates (noted i) q)
                   candidates of
              None \<Rightarrow> ss
            | Some p \<Rightarrow> ss[i := InFlight p now])
      else ss)"

text \<open>
  Modelled from the spec: the download service is missing from the sources. The
  assignment loop over the chunks below index \<open>n\<close>.
\<close>

definition assign_upto ::
  "nat \<Rightarrow> PeerId list \<Rightarrow> (nat \<Rightarrow> PeerId option) \<Rightarrow> nat \<Rightarrow> chunk_state list \<Rightarrow> nat
    \<Rightarrow> chunk_state list" where
  "assign_upto limit candidates noted now ss n =
     foldl (assign_chunk limit candidates noted now) ss [0..<n]"

text \<open>
  Modelled from the spec: the download service is missing from the sources. One pass of
  the assignment loop. The candidate list is derived afresh from the reputation store by
  the selection (\<open>selectCandidates\<close>, a parameter: the ranking of the specification over
  the peers known at that time). The notes of the timeouts hold for this pass only.
\<close>

definition assignment_pass ::
  "coordinator_config \<Rightarrow> (reputation_store \<Rightarrow> PeerId list) \<Rightarrow> nat \<Rightarrow> coordinator \<Rightarrow> coordinator" where
  "assignment_pass cfg selectCandidates now co =
     co\<lparr>task := (task co)\<lparr>chunkStatus :=
          assign_upto (peer_limit cfg) (selectCandidates (reputation co)) (timedOut co) now
            (chunkStatus (task co)) (length (chunkStatus (task co)))\<rparr>,
        timedOut := (\<lambda>i. None)\<rparr>"

text \<open>
  Two example tasks of two chunks: the first chunk in flight to \<open>slow\<close> since time 0,
  the second one pending, or in flight to \<open>fast\<close> since time 15.
\<close>

definition example_coordinator_config :: coordinator_config where
  "example_coordinator_config =
     \<lparr>reputation_cfg = example_config, peer_limit = 1, throughput = 1000, deadline_floor = 5\<rparr>"

definition example_coordinator :: coordinator where
  "example_coordinator =
     \<lparr>task = \<lparr>fileId = ''file'', totalChunks = 2, chunkSize = 10000,
              chunkStatus = [InFlight ''slow'' 0, Pending]\<rparr>,
      reputation = Map.empty, timedOut = (\<lambda>i. None)\<rparr>"

definition busy_coordinator :: coordinator where
  "busy_coordinator =
     \<lparr>task = \<lparr>fileId = ''file'', totalChunks = 2, chunkSize = 10000,
              chunkStatus = [InFlight ''slow'' 0, InFlight ''fast'' 15]\<rparr>,
      reputation = Map.empty, timedOut = (\<lambda>i. None)\<rparr>"

section \<open>Properties of the region classifier\<close>

subsection \<open>Timezone lookup\<close>

lemma matcher_loop_first_resolving:
  "matcher_loop cands tz ms =
     (case find (\<lambda>m. test m tz \<and> find (\<lambda>item. region_id item = regionId m) cands \<noteq> None) ms of
        None \<Rightarrow> None
      | Some m \<Rightarrow> find (\<lambda>item. region_id item = regionId m) cands)"
  by (induction ms) (auto split: option.splits)

lemma matcher_loop_no_match:
  "find (\<lambda>m. test m tz) ms = None \<Longrightarrow> matcher_loop cands tz ms = None"
  by (induction ms) (auto split: if_splits)

lemma matcher_loop_first_match:
  "find (\<lambda>m. test m tz) ms = Some m \<Longrightarrow>
   find (\<lambda>item. region_id item = regionId m) cands = Some r \<Longrightarrow>
   matcher_loop cands tz ms = Some r"
  by (induction ms) (auto split: if_splits)

lemma find_region_id: "find (\<lambda>item. region_id item = i) cands = Some r \<Longrightarrow> region_id r = i"
  by (auto simp: find_Some_iff)

lemma find_region_present:
  "i \<in> region_id ` set cands \<Longrightarrow> \<exists>r. find (\<lambda>item. region_id item = i) cands = Some r"
  by (cases "find (\<lambda>item. region_id item = i) cands") (auto simp: find_None_iff)

text \<open>A pattern that extends another one matches only where the shorter one does.\<close>

lemma startsWith_append: "startsWith (a @ b) s \<Longrightarrow> startsWith a s"
  by (induction a s rule: startsWith.induct) auto

lemma matches_at_prefix: "matches_at (re @ re') s \<Longrightarrow> matches_at re s"
  by (induction re s rule: matches_at.induct) (auto simp: list_ex_iff)

lemma regex_test_prefix: "regex_test (re @ re') s \<Longrightarrow> regex_test re s"
  by (induction re s rule: regex_test.induct) (auto dest: matches_at_prefix)

lemma usWest_is_america: "regex_test usWest_re s \<Longrightarrow> regex_test america_re s"
  using regex_test_prefix [of "[[''america/'']]" _ s]
  by (simp add: usWest_re_def america_re_def)

lemma southAmerica_is_america: "regex_test southAmerica_re s \<Longrightarrow> regex_test america_re s"
  using regex_test_prefix [of "[[''america/'']]" _ s]
  by (simp add: southAmerica_re_def america_re_def)

lemma euCentral_is_europe: "regex_test euCentral_re s \<Longrightarrow> regex_test europe_re s"
  using regex_test_prefix [of "[[''europe/'']]" _ s]
  by (simp add: euCentral_re_def europe_re_def)

lemma euWest_is_europe: "regex_test euWest_re s \<Longrightarrow> regex_test europe_re s"
  using regex_test_prefix [of "[[''europe/'']]" _ s]
  by (simp add: euWest_re_def europe_re_def)

lemma asiaEast_is_asia: "regex_test asiaEast_re s \<Longrightarrow> regex_test asia_re s"
  using regex_test_prefix [of "[[''asia/'']]" _ s]
  by (simp add: asiaEast_re_def asia_re_def)

text \<open>The ten identifiers \<open>asia/<city>\<close> of the East-Asia rule, run through the patterns.\<close>

lemma asiaEast_identifiers:
  "list_all (\<lambda>s. \<not> regex_test america_re s \<and> \<not> regex_test europe_re s \<and> regex_test asiaEast_re s)
     (map ((@) ''asia/'') asiaEast_cities)"
  by code_simp

lemma lima_tests:
  "\<not> regex_test usWest_re (toLowerCase ''America/Lima'')"
  "regex_test southAmerica_re (toLowerCase ''America/Lima'')"
  "regex_test america_re (toLowerCase ''America/Lima'')"
  by code_simp+

lemma utc_tests: "list_all (\<lambda>m. \<not> test m (toLowerCase ''UTC'')) matchers"
  by code_simp

lemma tokyo_lower: "toLowerCase ''Asia/Tokyo'' = ''asia/tokyo''"
  by code_simp

text \<open>
  Claim C1. \<open>inferRegionFromTimezone\<close> runs the ordered rules on the lower-cased
  identifier. For every input string: when no rule's pattern matches, the result is
  none, and \<open>detectUserRegion\<close>, its caller, falls back to the default region when
  geolocation gave no region either; when the first rule whose pattern matches names a
  region of the catalogue (sentinel excluded), the result is that region.
\<close>

theorem inferRegionFromTimezone_first_match:
  "(find (\<lambda>m. test m (toLowerCase timezone)) matchers = None \<longrightarrow>
      inferRegionFromTimezone g timezone = None \<and>
      ((geolocation env = Unavailable \<or> geolocation env = Rejected) \<and>
       intl env = TimeZone timezone \<longrightarrow>
         detectUserRegion pf g env = \<lparr>region = FALLBACK_REGION g, source = Fallback\<rparr>)) \<and>
   (\<forall>m r. find (\<lambda>m. test m (toLowerCase timezone)) matchers = Some m \<and>
          find (\<lambda>item. region_id item = regionId m) (REGION_CANDIDATES g) = Some r \<longrightarrow>
          inferRegionFromTimezone g timezone = Some r)"
proof (intro conjI impI allI)
  assume n: "find (\<lambda>m. test m (toLowerCase timezone)) matchers = None"
  then show none: "inferRegionFromTimezone g timezone = None"
    by (simp add: inferRegionFromTimezone_def matcher_loop_no_match)
  assume "(geolocation env = Unavailable \<or> geolocation env = Rejected) \<and>
       intl env = TimeZone timezone"
  then show "detectUserRegion pf g env = \<lparr>region = FALLBACK_REGION g, source = Fallback\<rparr>"
    using none
    by (auto simp: detectUserRegion_def detectFromBrowserGeolocation_def detectFromTimezone_def)
next
  fix m r
  assume "find (\<lambda>m. test m (toLowerCase timezone)) matchers = Some m \<and>
          find (\<lambda>item. region_id item = regionId m) (REGION_CANDIDATES g) = Some r"
  then show "inferRegionFromTimezone g timezone = Some r"
    by (simp add: inferRegionFromTimezone_def matcher_loop_first_match)
qed

theorem inferRegionFromTimezone_first_match_witness:
  "map_option regionId (find (\<lambda>m. test m (toLowerCase ''America/Lima'')) matchers) =
     Some ''southAmerica'' \<and>
   find (\<lambda>item. region_id item = ''southAmerica'') (REGION_CANDIDATES example_geo) =
     Some \<lparr>region_id = ''southAmerica'', name = ''South America'', lat = Num (-23), lng = Num (-46)\<rparr> \<and>
   inferRegionFromTimezone example_geo ''America/Lima'' =
     Some \<lparr>region_id = ''southAmerica'', name = ''South America'', lat = Num (-23), lng = Num (-46)\<rparr> \<and>
   find (\<lambda>m. test m (toLowerCase ''UTC'')) matchers = None \<and>
   inferRegionFromTimezone example_geo ''UTC'' = None \<and>
   detectUserRegion exact_platform example_geo \<lparr>geolocation = Unavailable, intl = TimeZone ''UTC''\<rparr> =
     \<lparr>region = Some \<lparr>region_id = ''usEast'', name = ''US East'', lat = Num 39, lng = Num (-77)\<rparr>,
      source = Fallback\<rparr>"
proof -
  let ?m = "\<lparr>test = regex_test southAmerica_re, regionId = ''southAmerica''\<rparr>"
  let ?env = "\<lparr>geolocation = Unavailable, intl = TimeZone ''UTC''\<rparr>"
  have a: "find (\<lambda>m. test m (toLowerCase ''America/Lima'')) matchers = Some ?m"
    using lima_tests by (simp add: matchers_def)
  have b: "find (\<lambda>item. region_id item = regionId ?m) (REGION_CANDIDATES example_geo) =
     Some \<lparr>region_id = ''southAmerica'', name = ''South America'', lat = Num (-23), lng = Num (-46)\<rparr>"
    by (simp add: REGION_CANDIDATES_def example_geo_def)
  have c: "find (\<lambda>m. test m (toLowerCase ''UTC'')) matchers = None"
    using utc_tests by (simp add: find_None_iff list_all_iff)
  have f: "FALLBACK_REGION example_geo =
     Some \<lparr>region_id = ''usEast'', name = ''US East'', lat = Num 39, lng = Num (-77)\<rparr>"
    by (simp add: FALLBACK_REGION_def REGION_CANDIDATES_def example_geo_def)
  from inferRegionFromTimezone_first_match [where timezone = "''America/Lima''" and g = example_geo] a b
  have d: "inferRegionFromTimezone example_geo ''America/Lima'' =
     Some \<lparr>region_id = ''southAmerica'', name = ''South America'', lat = Num (-23), lng = Num (-46)\<rparr>"
    by blast
  from inferRegionFromTimezone_first_match
      [where timezone = "''UTC''" and g = example_geo and env = ?env and pf = exact_platform] c
  have e: "inferRegionFromTimezone example_geo ''UTC'' = None \<and>
     detectUserRegion exact_platform example_geo ?env = \<lparr>region = FALLBACK_REGION example_geo, source = Fallback\<rparr>"
    by simp
  from a b c d e f show ?thesis by simp
qed

text \<open>
  Claim C2. Rule order. An identifier that names a city of the South-America rule
  never resolves to the generic Americas region \<open>usEast\<close>, and each of the ten
  identifiers \<open>Asia/<city>\<close> of the East-Asia rule (in any letter case) resolves to the
  East-Asia region although the later Asia catch-all matches it too. The two regions
  the claim names are taken to be in the catalogue.
\<close>

theorem timezone_rule_ordering:
  "(regex_test southAmerica_re (toLowerCase timezone) \<and>
    ''southAmerica'' \<in> region_id ` set (REGION_CANDIDATES g) \<longrightarrow>
      (\<exists>r. inferRegionFromTimezone g timezone = Some r \<and> region_id r \<noteq> ''usEast'')) \<and>
   (toLowerCase timezone \<in> set (map ((@) ''asia/'') asiaEast_cities) \<and>
    find (\<lambda>item. region_id item = ''asiaEast'') (REGION_CANDIDATES g) = Some r' \<longrightarrow>
      regex_test asia_re (toLowerCase timezone) \<and>
      inferRegionFromTimezone g timezone = Some r')"
proof (intro conjI impI)
  assume h: "regex_test southAmerica_re (toLowerCase timezone) \<and>
    ''southAmerica'' \<in> region_id ` set (REGION_CANDIDATES g)"
  then obtain r2 where
    r2: "find (\<lambda>item. region_id item = ''southAmerica'') (REGION_CANDIDATES g) = Some r2"
    using find_region_present by blast
  have id2: "region_id r2 = ''southAmerica''" using r2 by (rule find_region_id)
  show "\<exists>r. inferRegionFromTimezone g timezone = Some r \<and> region_id r \<noteq> ''usEast''"
  proof (cases "find (\<lambda>item. region_id item = ''usWest'') (REGION_CANDIDATES g)")
    case None
    then show ?thesis using h r2 id2
      by (simp add: inferRegionFromTimezone_def matchers_def Let_def)
  next
    case (Some r1)
    then have "region_id r1 = ''usWest''" by (rule find_region_id)
    then show ?thesis using h r2 id2 Some
      by (simp add: inferRegionFromTimezone_def matchers_def Let_def)
  qed
next
  assume h: "toLowerCase timezone \<in> set (map ((@) ''asia/'') asiaEast_cities) \<and>
    find (\<lambda>item. region_id item = ''asiaEast'') (REGION_CANDIDATES g) = Some r'"
  then have t: "\<not> regex_test america_re (toLowerCase timezone)"
    "\<not> regex_test europe_re (toLowerCase timezone)"
    "regex_test asiaEast_re (toLowerCase timezone)"
    using asiaEast_identifiers unfolding list_all_iff by blast+
  show "regex_test asia_re (toLowerCase timezone)"
    using t(3) by (rule asiaEast_is_asia)
  have "\<not> regex_test usWest_re (toLowerCase timezone)"
    "\<not> regex_test southAmerica_re (toLowerCase timezone)"
    "\<not> regex_test euCentral_re (toLowerCase timezone)"
    "\<not> regex_test euWest_re (toLowerCase timezone)"
    using t usWest_is_america southAmerica_is_america euCentral_is_europe euWest_is_europe
    by blast+
  then show "inferRegionFromTimezone g timezone = Some r'"
    using t h by (simp add: inferRegionFromTimezone_def matchers_def Let_def)
qed

theorem timezone_rule_ordering_witness:
  "regex_test southAmerica_re (toLowerCase ''America/Lima'') \<and>
   ''southAmerica'' \<in> region_id ` set (REGION_CANDIDATES example_geo) \<and>
   (\<exists>r. inferRegionFromTimezone example_geo ''America/Lima'' = Some r \<and>
        region_id r \<noteq> ''usEast'') \<and>
   toLowerCase ''Asia/Tokyo'' \<in> set (map ((@) ''asia/'') asiaEast_cities) \<and>
   find (\<lambda>item. region_id item = ''asiaEast'') (REGION_CANDIDATES example_geo) =
     Some \<lparr>region_id = ''asiaEast'', name = ''Asia East'', lat = Num 35, lng = Num 139\<rparr> \<and>
   regex_test asia_re (toLowerCase ''Asia/Tokyo'') \<and>
   inferRegionFromTimezone example_geo ''Asia/Tokyo'' =
     Some \<lparr>region_id = ''asiaEast'', name = ''Asia East'', lat = Num 35, lng = Num 139\<rparr>"
proof -
  have a: "regex_test southAmerica_re (toLowerCase ''America/Lima'')"
    by (rule lima_tests)
  have b: "''southAmerica'' \<in> region_id ` set (REGION_CANDIDATES example_geo)"
    by (simp add: REGION_CANDIDATES_def example_geo_def)
  have c: "toLowerCase ''Asia/Tokyo'' \<in> set (map ((@) ''asia/'') asiaEast_cities)"
    by (simp add: tokyo_lower asiaEast_cities_def)
  have d: "find (\<lambda>item. region_id item = ''asiaEast'') (REGION_CANDIDATES example_geo) =
     Some \<lparr>region_id = ''asiaEast'', name = ''Asia East'', lat = Num 35, lng = Num 139\<rparr>"
    by (simp add: REGION_CANDIDATES_def example_geo_def)
  from timezone_rule_ordering [of "''America/Lima''" example_geo] a b
  have e: "\<exists>r. inferRegionFromTimezone example_geo ''America/Lima'' = Some r \<and>
      region_id r \<noteq> ''usEast''"
    by blast
  from timezone_rule_ordering [of "''Asia/Tokyo''" example_geo] c d
  have f: "regex_test asia_re (toLowerCase ''Asia/Tokyo'') \<and>
   inferRegionFromTimezone example_geo ''Asia/Tokyo'' =
     Some \<lparr>region_id = ''asiaEast'', name = ''Asia East'', lat = Num 35, lng = Num 139\<rparr>"
    by blast
  from a b c d e f show ?thesis by blast
qed

text \<open>
  Claim C10. A rule whose pattern matches but whose \<open>regionId\<close> names no region of
  the catalogue (sentinel excluded) is passed over: the result is the region of the
  first rule that both matches and names a catalogue region, and none when there is
  no such rule.
\<close>

theorem inferRegionFromTimezone_fall_through:
  "inferRegionFromTimezone g timezone =
     (case find (\<lambda>m. test m (toLowerCase timezone) \<and>
                     find (\<lambda>item. region_id item = regionId m) (REGION_CANDIDATES g) \<noteq> None)
             matchers of
        None \<Rightarrow> None
      | Some m \<Rightarrow> find (\<lambda>item. region_id item = regionId m) (REGION_CANDIDATES g))"
  by (simp add: inferRegionFromTimezone_def matcher_loop_first_resolving)

theorem inferRegionFromTimezone_fall_through_witness:
  "regex_test southAmerica_re (toLowerCase ''America/Lima'') \<and>
   find (\<lambda>item. region_id item = ''southAmerica'') (REGION_CANDIDATES sparse_geo) = None \<and>
   inferRegionFromTimezone sparse_geo ''America/Lima'' =
     Some \<lparr>region_id = ''usEast'', name = ''US East'', lat = Num 39, lng = Num (-77)\<rparr>"
proof -
  have c: "REGION_CANDIDATES sparse_geo = [\<lparr>region_id = ''usEast'', name = ''US East'', lat = Num 39, lng = Num (-77)\<rparr>]"
    by (simp add: REGION_CANDIDATES_def sparse_geo_def)
  have "inferRegionFromTimezone sparse_geo ''America/Lima'' =
     Some \<lparr>region_id = ''usEast'', name = ''US East'', lat = Num 39, lng = Num (-77)\<rparr>"
    using lima_tests
    by (simp add: inferRegionFromTimezone_fall_through [of sparse_geo "''America/Lima''"]
        c matchers_def)
  then show ?thesis using lima_tests by (simp add: c)
qed

subsection \<open>Coordinate lookup\<close>

text \<open>
  The loop returns the first candidate of least distance among those whose distance is
  a number, and the region it started from when there is no such candidate.
\<close>

lemma less_number_Num: "less_number x (Num v) \<longleftrightarrow> (\<exists>d. x = Num d \<and> d < v)"
  by (cases x) auto

lemma less_number_inf: "less_number x POSITIVE_INFINITY \<longleftrightarrow> (\<exists>d. x = Num d)"
  by (cases x) auto

lemma nearest_loop_finite:
  "(nearest_loop pf qlat qlng rs c (Num v) = c \<and>
      (\<forall>r\<in>set rs. \<forall>e. haversineDistance pf qlat qlng (lat r) (lng r) = Num e \<longrightarrow> v \<le> e)) \<or>
   (\<exists>i<length rs. \<exists>d. nearest_loop pf qlat qlng rs c (Num v) = Some (rs ! i) \<and>
      haversineDistance pf qlat qlng (lat (rs ! i)) (lng (rs ! i)) = Num d \<and> d < v \<and>
      (\<forall>j<length rs. \<forall>e. haversineDistance pf qlat qlng (lat (rs ! j)) (lng (rs ! j)) = Num e
                        \<longrightarrow> d \<le> e) \<and>
      (\<forall>j<i. \<forall>e. haversineDistance pf qlat qlng (lat (rs ! j)) (lng (rs ! j)) = Num e
                        \<longrightarrow> d < e))"
proof (induction rs arbitrary: c v)
  case Nil
  then show ?case by simp
next
  case (Cons r rs)
  let ?D = "\<lambda>x. haversineDistance pf qlat qlng (lat x) (lng x)"
  show ?case
  proof (cases "less_number (?D r) (Num v)")
    case True
    then obtain d0 where d0: "?D r = Num d0" "d0 < v" by (auto simp: less_number_Num)
    from Cons.IH [of "Some r" d0] show ?thesis
    proof (elim disjE conjE exE)
      assume a: "nearest_loop pf qlat qlng rs (Some r) (Num d0) = Some r"
        and b: "\<forall>x\<in>set rs. \<forall>e. ?D x = Num e \<longrightarrow> d0 \<le> e"
      have "\<forall>j<length (r # rs). \<forall>e. ?D ((r # rs) ! j) = Num e \<longrightarrow> d0 \<le> e"
        using b d0 by (auto simp: nth_Cons')
      then have "0 < length (r # rs) \<and>
         nearest_loop pf qlat qlng (r # rs) c (Num v) = Some ((r # rs) ! 0) \<and>
         ?D ((r # rs) ! 0) = Num d0 \<and> d0 < v \<and>
         (\<forall>j<length (r # rs). \<forall>e. ?D ((r # rs) ! j) = Num e \<longrightarrow> d0 \<le> e) \<and>
         (\<forall>j<0. \<forall>e. ?D ((r # rs) ! j) = Num e \<longrightarrow> d0 < e)"
        using True a d0 by simp
      then show ?thesis by blast
    next
      fix i d
      assume i: "i < length rs"
        and a: "nearest_loop pf qlat qlng rs (Some r) (Num d0) = Some (rs ! i)"
        and di: "?D (rs ! i) = Num d"
        and lt: "d < d0"
        and mn: "\<forall>j<length rs. \<forall>e. ?D (rs ! j) = Num e \<longrightarrow> d \<le> e"
        and fs: "\<forall>j<i. \<forall>e. ?D (rs ! j) = Num e \<longrightarrow> d < e"
      have "Suc i < length (r # rs) \<and>
         nearest_loop pf qlat qlng (r # rs) c (Num v) = Some ((r # rs) ! Suc i) \<and>
         ?D ((r # rs) ! Suc i) = Num d \<and> d < v \<and>
         (\<forall>j<length (r # rs). \<forall>e. ?D ((r # rs) ! j) = Num e \<longrightarrow> d \<le> e) \<and>
         (\<forall>j<Suc i. \<forall>e. ?D ((r # rs) ! j) = Num e \<longrightarrow> d < e)"
        using True i a di lt mn fs d0 by (auto simp: nth_Cons' less_Suc_eq_0_disj)
      then show ?thesis by blast
    qed
  next
    case False
    then have nl: "\<forall>e. ?D r = Num e \<longrightarrow> v \<le> e" by (auto simp: less_number_Num)
    from Cons.IH [of c v] show ?thesis
    proof (elim disjE conjE exE)
      assume a: "nearest_loop pf qlat qlng rs c (Num v) = c"
        and b: "\<forall>x\<in>set rs. \<forall>e. ?D x = Num e \<longrightarrow> v \<le> e"
      then show ?thesis using False nl by auto
    next
      fix i d
      assume i: "i < length rs"
        and a: "nearest_loop pf qlat qlng rs c (Num v) = Some (rs ! i)"
        and di: "?D (rs ! i) = Num d"
        and lt: "d < v"
        and mn: "\<forall>j<length rs. \<forall>e. ?D (rs ! j) = Num e \<longrightarrow> d \<le> e"
        and fs: "\<forall>j<i. \<forall>e. ?D (rs ! j) = Num e \<longrightarrow> d < e"
      have "Suc i < length (r # rs) \<and>
         nearest_loop pf qlat qlng (r # rs) c (Num v) = Some ((r # rs) ! Suc i) \<and>
         ?D ((r # rs) ! Suc i) = Num d \<and> d < v \<and>
         (\<forall>j<length (r # rs). \<forall>e. ?D ((r # rs) ! j) = Num e \<longrightarrow> d \<le> e) \<and>
         (\<forall>j<Suc i. \<forall>e. ?D ((r # rs) ! j) = Num e \<longrightarrow> d < e)"
        using False i a di lt mn fs nl by (auto simp: nth_Cons' less_Suc_eq_0_disj)
      then show ?thesis by blast
    qed
  qed
qed

lemma nearest_loop_initial:
  "(nearest_loop pf qlat qlng rs c POSITIVE_INFINITY = c \<and>
      (\<forall>r\<in>set rs. \<forall>e. haversineDistance pf qlat qlng (lat r) (lng r) \<noteq> Num e)) \<or>
   (\<exists>i<length rs. \<exists>d. nearest_loop pf qlat qlng rs c POSITIVE_INFINITY = Some (rs ! i) \<and>
      haversineDistance pf qlat qlng (lat (rs ! i)) (lng (rs ! i)) = Num d \<and>
      (\<forall>j<length rs. \<forall>e. haversineDistance pf qlat qlng (lat (rs ! j)) (lng (rs ! j)) = Num e
                        \<longrightarrow> d \<le> e) \<and>
      (\<forall>j<i. \<forall>e. haversineDistance pf qlat qlng (lat (rs ! j)) (lng (rs ! j)) = Num e
                        \<longrightarrow> d < e))"
proof (induction rs arbitrary: c)
  case Nil
  then show ?case by simp
next
  case (Cons r rs)
  let ?D = "\<lambda>x. haversineDistance pf qlat qlng (lat x) (lng x)"
  show ?case
  proof (cases "less_number (?D r) POSITIVE_INFINITY")
    case True
    then obtain d0 where d0: "?D r = Num d0" by (auto simp: less_number_inf)
    from nearest_loop_finite [of pf qlat qlng rs "Some r" d0] show ?thesis
    proof (elim disjE conjE exE)
      assume a: "nearest_loop pf qlat qlng rs (Some r) (Num d0) = Some r"
        and b: "\<forall>x\<in>set rs. \<forall>e. ?D x = Num e \<longrightarrow> d0 \<le> e"
      have "\<forall>j<length (r # rs). \<forall>e. ?D ((r # rs) ! j) = Num e \<longrightarrow> d0 \<le> e"
        using b d0 by (auto simp: nth_Cons')
      then have "0 < length (r # rs) \<and>
         nearest_loop pf qlat qlng (r # rs) c POSITIVE_INFINITY = Some ((r # rs) ! 0) \<and>
         ?D ((r # rs) ! 0) = Num d0 \<and>
         (\<forall>j<length (r # rs). \<forall>e. ?D ((r # rs) ! j) = Num e \<longrightarrow> d0 \<le> e) \<and>
         (\<forall>j<0. \<forall>e. ?D ((r # rs) ! j) = Num e \<longrightarrow> d0 < e)"
        using True a d0 by simp
      then show ?thesis by blast
    next
      fix i d
      assume i: "i < length rs"
        and a: "nearest_loop pf qlat qlng rs (Some r) (Num d0) = Some (rs ! i)"
        and di: "?D (rs ! i) = Num d"
        and lt: "d < d0"
        and mn: "\<forall>j<length rs. \<forall>e. ?D (rs ! j) = Num e \<longrightarrow> d \<le> e"
        and fs: "\<forall>j<i. \<forall>e. ?D (rs ! j) = Num e \<longrightarrow> d < e"
      have "Suc i < length (r # rs) \<and>
         nearest_loop pf qlat qlng (r # rs) c POSITIVE_INFINITY = Some ((r # rs) ! Suc i) \<and>
         ?D ((r # rs) ! Suc i) = Num d \<and>
         (\<forall>j<length (r # rs). \<forall>e. ?D ((r # rs) ! j) = Num e \<longrightarrow> d \<le> e) \<and>
         (\<forall>j<Suc i. \<forall>e. ?D ((r # rs) ! j) = Num e \<longrightarrow> d < e)"
        using True i a di lt mn fs d0 by (auto simp: nth_Cons' less_Suc_eq_0_disj)
      then show ?thesis by blast
    qed
  next
    case False
    then have nn: "\<forall>e. ?D r \<noteq> Num e" by (auto simp: less_number_inf)
    from Cons.IH [of c] show ?thesis
    proof (elim disjE conjE exE)
      assume a: "nearest_loop pf qlat qlng rs c POSITIVE_INFINITY = c"
        and b: "\<forall>x\<in>set rs. \<forall>e. ?D x \<noteq> Num e"
      then show ?thesis using False nn by auto
    next
      fix i d
      assume i: "i < length rs"
        and a: "nearest_loop pf qlat qlng rs c POSITIVE_INFINITY = Some (rs ! i)"
        and di: "?D (rs ! i) = Num d"
        and mn: "\<forall>j<length rs. \<forall>e. ?D (rs ! j) = Num e \<longrightarrow> d \<le> e"
        and fs: "\<forall>j<i. \<forall>e. ?D (rs ! j) = Num e \<longrightarrow> d < e"
      have "Suc i < length (r # rs) \<and>
         nearest_loop pf qlat qlng (r # rs) c POSITIVE_INFINITY = Some ((r # rs) ! Suc i) \<and>
         ?D ((r # rs) ! Suc i) = Num d \<and>
         (\<forall>j<length (r # rs). \<forall>e. ?D ((r # rs) ! j) = Num e \<longrightarrow> d \<le> e) \<and>
         (\<forall>j<Suc i. \<forall>e. ?D ((r # rs) ! j) = Num e \<longrightarrow> d < e)"
        using False i a di mn fs nn by (auto simp: nth_Cons' less_Suc_eq_0_disj)
      then show ?thesis by blast
    qed
  qed
qed

lemma nearest_loop_member:
  "nearest_loop pf qlat qlng rs c m = Some r \<Longrightarrow> c = Some r \<or> r \<in> set rs"
  by (induction rs arbitrary: c m) (auto simp: Let_def split: if_splits)

text \<open>The distance is \<open>NaN\<close> or a finite number, and \<open>NaN\<close> when a coordinate is.\<close>

lemma haversineDistance_a:
  "haversineDistance pf lat1 lng1 lat2 lng2 =
     js_mul pf (Num 6371)
       (js_mul pf (Num 2)
          (Math_atan2 pf (Math_sqrt pf (haversine_a pf lat1 lng1 lat2 lng2))
             (Math_sqrt pf (js_sub pf (Num 1) (haversine_a pf lat1 lng1 lat2 lng2)))))"
  by (simp add: haversineDistance_def haversine_a_def Let_def)

lemma rounded_cases: "rounded pf x = NaN \<or> (\<exists>y. rounded pf x = Num y)"
  by (cases "round_double pf x") (auto simp: rounded_def)

lemma js_mul_Num:
  "js_mul pf x y = Num z \<Longrightarrow> \<exists>a b. x = Num a \<and> y = Num b \<and> rounded pf (a * b) = Num z"
  by (cases x; cases y) auto

lemma Math_atan2_Num:
  "Math_atan2 pf y x = Num t \<Longrightarrow> \<exists>a b. y = Num a \<and> x = Num b \<and> t = atan2_double pf a b"
  by (cases x; cases y) auto

lemma Math_sqrt_Num:
  "Math_sqrt pf x = Num y \<Longrightarrow> \<exists>a. x = Num a \<and> 0 \<le> a \<and> y = sqrt_double pf a"
  by (cases x) (auto split: if_splits)

lemma toRadians_cases: "toRadians pf v = NaN \<or> (\<exists>t. toRadians pf v = Num t)"
proof (cases "js_mul pf v (Math_PI pf)")
  case (Num m)
  then show ?thesis using rounded_cases [of pf "m / 180"] by (simp add: toRadians_def)
qed (simp_all add: toRadians_def)




lemma Number_isFinite_iff: "Number_isFinite x \<longleftrightarrow> (\<exists>v. x = Num v)"
  by (cases x) auto

lemma toRadians_Num: "toRadians pf v = Num t \<Longrightarrow> \<exists>x. v = Num x"
  by (cases v) (simp_all add: toRadians_def)

lemma toRadians_not_finite: "\<not> Number_isFinite v \<Longrightarrow> toRadians pf v = NaN"
  by (cases v) (simp_all add: toRadians_def)


lemma Math_sin_not_finite: "\<not> Number_isFinite x \<Longrightarrow> Math_sin pf x = NaN"
  by (cases x) auto


lemma js_div_not_finite: "\<not> Number_isFinite x \<Longrightarrow> js_div pf x y = NaN"
  by (cases x; cases y) auto

lemma js_mul_NaN [simp]: "js_mul pf NaN y = NaN" "js_mul pf x NaN = NaN"
  by (cases y; simp) (cases x; simp)

lemma js_add_NaN [simp]: "js_add pf NaN y = NaN" "js_add pf x NaN = NaN"
  by (cases y; simp) (cases x; simp)




text \<open>
  On a platform with the facts of \<open>ieee_platform\<close>, the distance from a point with
  finite coordinates to itself is 0 and no distance is negative.
\<close>

lemma rounded_zero: "ieee_platform pf \<Longrightarrow> rounded pf 0 = Num 0"
  by (simp add: ieee_platform_def rounded_def)

lemma rounded_one: "ieee_platform pf \<Longrightarrow> rounded pf 1 = Num 1"
  by (simp add: ieee_platform_def rounded_def)

lemma rounded_unit: "ieee_platform pf \<Longrightarrow> \<bar>x\<bar> \<le> 1 \<Longrightarrow> \<exists>y. rounded pf x = Num y"
  by (cases "round_double pf x") (auto simp: ieee_platform_def rounded_def)

lemma rounded_nonneg: "ieee_platform pf \<Longrightarrow> rounded pf x = Num y \<Longrightarrow> 0 \<le> x \<Longrightarrow> 0 \<le> y"
  by (cases "round_double pf x") (auto simp: ieee_platform_def rounded_def)

lemma toRadians_zero: "ieee_platform pf \<Longrightarrow> toRadians pf (Num 0) = Num 0"
  by (simp add: toRadians_def Math_PI_def rounded_zero)

lemma haversine_a_same:
  assumes p: "ieee_platform pf" and la: "toRadians pf (Num la) = Num t"
  shows "haversine_a pf (Num la) (Num lo) (Num la) (Num lo) = Num 0"
proof -
  have c: "\<bar>cos_double pf t * cos_double pf t\<bar> \<le> 1"
  proof -
    have "\<bar>cos_double pf t\<bar> \<le> 1" using p by (simp add: ieee_platform_def)
    then have "\<bar>cos_double pf t\<bar> * \<bar>cos_double pf t\<bar> \<le> 1 * 1"
      by (intro mult_mono) simp_all
    then show ?thesis by (simp add: abs_mult)
  qed
  then obtain q where q: "rounded pf (cos_double pf t * cos_double pf t) = Num q"
    using rounded_unit [OF p] by blast
  have s: "sin_double pf 0 = 0" using p by (simp add: ieee_platform_def)
  show ?thesis
    by (simp add: haversine_a_def Let_def rounded_zero [OF p] toRadians_zero [OF p] la s q)
qed

lemma haversineDistance_same:
  assumes p: "ieee_platform pf" and la: "toRadians pf (Num la) = Num t"
  shows "haversineDistance pf (Num la) (Num lo) (Num la) (Num lo) = Num 0"
proof -
  have f: "sqrt_double pf 0 = 0" "sqrt_double pf 1 = 1" "atan2_double pf 0 1 = 0"
    using p by (simp_all add: ieee_platform_def)
  show ?thesis
    by (simp add: haversineDistance_a haversine_a_same [OF p la] rounded_zero [OF p]
        rounded_one [OF p] f)
qed

lemma haversineDistance_nonneg:
  assumes p: "ieee_platform pf" and d: "haversineDistance pf lat1 lng1 lat2 lng2 = Num d"
  shows "0 \<le> d"
proof -
  let ?a = "haversine_a pf lat1 lng1 lat2 lng2"
  from d obtain c where c: "js_mul pf (Num 2)
        (Math_atan2 pf (Math_sqrt pf ?a) (Math_sqrt pf (js_sub pf (Num 1) ?a))) = Num c"
    and rd: "rounded pf (6371 * c) = Num d"
    unfolding haversineDistance_a by (auto dest!: js_mul_Num)
  from c obtain t where t: "Math_atan2 pf (Math_sqrt pf ?a) (Math_sqrt pf (js_sub pf (Num 1) ?a)) = Num t"
    and rc: "rounded pf (2 * t) = Num c"
    by (auto dest!: js_mul_Num)
  from t obtain y x where y: "Math_sqrt pf ?a = Num y" and tt: "t = atan2_double pf y x"
    by (auto dest!: Math_atan2_Num)
  from y obtain a where "0 \<le> a" "y = sqrt_double pf a" by (auto dest!: Math_sqrt_Num)
  then have "0 \<le> y" using p by (simp add: ieee_platform_def)
  then have "0 \<le> t" using p tt by (simp add: ieee_platform_def)
  then have "0 \<le> c" using rounded_nonneg [OF p rc] by simp
  then show ?thesis using rounded_nonneg [OF p rd] by simp
qed

lemma calculateRegionDistance_same:
  assumes p: "ieee_platform pf"
    and t: "Number_isFinite (toRadians pf (lat a))" and l: "Number_isFinite (lng a)"
  shows "calculateRegionDistance pf a a = Num 0"
proof -
  from t obtain u where u: "toRadians pf (lat a) = Num u" by (auto simp: Number_isFinite_iff)
  then obtain la where la: "lat a = Num la" using toRadians_Num by blast
  from l obtain lo where lo: "lng a = Num lo" by (auto simp: Number_isFinite_iff)
  show ?thesis
    using haversineDistance_same [OF p, of la u lo] u
    by (simp add: calculateRegionDistance_def la lo)
qed












text \<open>
  The exact platform: its distance is \<open>haversine_real\<close>, which is 0 from a point to
  itself and positive between two different points (latitudes strictly between -90 and
  90, longitudes less than 360 apart).
\<close>

lemma sin_squared_le_1: "(sin t)\<^sup>2 \<le> 1" for t :: real
  using sin_cos_squared_add [of t] zero_le_power2 [of "cos t"] by linarith

lemma cos_squared_le_1: "(cos t)\<^sup>2 \<le> 1" for t :: real
  using sin_cos_squared_add [of t] zero_le_power2 [of "sin t"] by linarith

lemma cos_product: "cos (u - x) * cos (u + x) = (cos u)\<^sup>2 - (sin x)\<^sup>2" for u x :: real
proof -
  have "cos (u - x) * cos (u + x) =
      (cos u * cos x + sin u * sin x) * (cos u * cos x - sin u * sin x)"
    by (simp only: cos_add cos_diff)
  also have "\<dots> = (cos u)\<^sup>2 * (cos x)\<^sup>2 - (sin u)\<^sup>2 * (sin x)\<^sup>2"
    by (simp add: power2_eq_square algebra_simps)
  also have "\<dots> = (cos u)\<^sup>2 * (1 - (sin x)\<^sup>2) - (1 - (cos u)\<^sup>2) * (sin x)\<^sup>2"
    by (simp only: cos_squared_eq [of x] sin_squared_eq [of u])
  also have "\<dots> = (cos u)\<^sup>2 - (sin x)\<^sup>2"
    by (simp add: algebra_simps)
  finally show ?thesis .
qed

lemma haversine_a_real_range:
  "0 \<le> haversine_a_real lat1 lng1 lat2 lng2 \<and> haversine_a_real lat1 lng1 lat2 lng2 \<le> 1"
proof -
  define x where "x = toRadians_real (lat2 - lat1) / 2"
  define u where "u = (toRadians_real lat1 + toRadians_real lat2) / 2"
  define s where "s = (sin (toRadians_real (lng2 - lng1) / 2))\<^sup>2"
  have p1: "toRadians_real lat1 = u - x" and p2: "toRadians_real lat2 = u + x"
    by (simp_all add: x_def u_def toRadians_real_def field_simps)
  have s01: "0 \<le> s" "s \<le> 1" by (simp_all add: s_def sin_squared_le_1)
  have sx: "0 \<le> (sin x)\<^sup>2" "(sin x)\<^sup>2 \<le> 1" by (simp_all add: sin_squared_le_1)
  have cu: "0 \<le> (cos u)\<^sup>2" "(cos u)\<^sup>2 \<le> 1" by (simp_all add: cos_squared_le_1)
  have "haversine_a_real lat1 lng1 lat2 lng2 = (sin x)\<^sup>2 + (cos (u - x) * cos (u + x)) * s"
    by (simp add: haversine_a_real_def x_def [symmetric] s_def p1 [symmetric] p2 [symmetric]
        power2_eq_square algebra_simps)
  also have "\<dots> = (sin x)\<^sup>2 * (1 - s) + (cos u)\<^sup>2 * s"
    by (simp add: cos_product algebra_simps)
  finally have a: "haversine_a_real lat1 lng1 lat2 lng2 = (sin x)\<^sup>2 * (1 - s) + (cos u)\<^sup>2 * s" .
  have lo: "0 \<le> (sin x)\<^sup>2 * (1 - s) + (cos u)\<^sup>2 * s"
    using s01 sx cu by simp
  have "(sin x)\<^sup>2 * (1 - s) \<le> 1 * (1 - s)"
    using sx s01 by (intro mult_right_mono) simp_all
  moreover have "(cos u)\<^sup>2 * s \<le> 1 * s"
    using cu s01 by (intro mult_right_mono) simp_all
  ultimately have hi: "(sin x)\<^sup>2 * (1 - s) + (cos u)\<^sup>2 * s \<le> 1" by simp
  from a lo hi show ?thesis by simp
qed

lemma atan2_real_nonneg: "0 \<le> y \<Longrightarrow> 0 \<le> x \<Longrightarrow> 0 \<le> atan2_real y x"
  by (auto simp: atan2_real_def)

lemma haversine_real_a:
  "haversine_real lat1 lng1 lat2 lng2 =
     6371 * (2 * atan2_real (sqrt (haversine_a_real lat1 lng1 lat2 lng2))
                            (sqrt (1 - haversine_a_real lat1 lng1 lat2 lng2)))"
  by (simp add: haversine_real_def)

lemma haversine_real_nonneg: "0 \<le> haversine_real lat1 lng1 lat2 lng2"
  using haversine_a_real_range [of lat1 lng1 lat2 lng2]
  by (simp add: haversine_real_a atan2_real_nonneg)

lemma haversine_real_same: "haversine_real p q p q = 0"
  by (simp add: haversine_real_def haversine_a_real_def toRadians_real_def atan2_real_def)

lemma sin_nonzero: "t \<noteq> 0 \<Longrightarrow> \<bar>t\<bar> < pi \<Longrightarrow> sin t \<noteq> 0" for t :: real
proof (cases "0 < t")
  case True
  assume "\<bar>t\<bar> < pi"
  with True have "0 < sin t" by (intro sin_gt_zero) simp_all
  then show ?thesis by simp
next
  case False
  assume "t \<noteq> 0" "\<bar>t\<bar> < pi"
  with False have "0 < sin (- t)" by (intro sin_gt_zero) simp_all
  then show ?thesis by simp
qed

lemma toRadians_real_half_bound: "\<bar>v\<bar> < 360 \<Longrightarrow> \<bar>toRadians_real v / 2\<bar> < pi"
proof -
  assume "\<bar>v\<bar> < 360"
  then have "\<bar>v\<bar> * pi < 360 * pi" by simp
  then show ?thesis by (simp add: toRadians_real_def abs_mult)
qed

lemma toRadians_real_nonzero: "v \<noteq> 0 \<Longrightarrow> toRadians_real v / 2 \<noteq> 0"
  by (simp add: toRadians_real_def)

lemma cos_toRadians_real_pos: "- 90 < v \<Longrightarrow> v < 90 \<Longrightarrow> 0 < cos (toRadians_real v)"
proof -
  assume "- 90 < v" "v < 90"
  then have "(- 90) * pi < v * pi" "v * pi < 90 * pi"
    by (intro mult_strict_right_mono; simp)+
  then have "- (pi / 2) < toRadians_real v" "toRadians_real v < pi / 2"
    by (simp_all add: toRadians_real_def)
  then show ?thesis by (rule cos_gt_zero_pi)
qed

lemma haversine_a_real_pos:
  assumes "- 90 < lat1" "lat1 < 90" "- 90 < lat2" "lat2 < 90" "\<bar>lng2 - lng1\<bar> < 360"
    and ne: "lat1 \<noteq> lat2 \<or> lng1 \<noteq> lng2"
  shows "0 < haversine_a_real lat1 lng1 lat2 lng2"
proof -
  let ?x = "toRadians_real (lat2 - lat1) / 2" and ?y = "toRadians_real (lng2 - lng1) / 2"
  have c: "0 < cos (toRadians_real lat1) * cos (toRadians_real lat2)"
    using assms by (simp add: cos_toRadians_real_pos)
  have a: "haversine_a_real lat1 lng1 lat2 lng2 =
      (sin ?x)\<^sup>2 + cos (toRadians_real lat1) * cos (toRadians_real lat2) * (sin ?y)\<^sup>2"
    by (simp add: haversine_a_real_def power2_eq_square algebra_simps)
  show ?thesis
  proof (cases "lat1 = lat2")
    case False
    then have "lat2 - lat1 \<noteq> 0" "\<bar>lat2 - lat1\<bar> < 360" using assms by simp_all
    then have "sin ?x \<noteq> 0"
      by (intro sin_nonzero toRadians_real_nonzero toRadians_real_half_bound)
    then have "0 < (sin ?x)\<^sup>2" by simp
    moreover have "0 \<le> cos (toRadians_real lat1) * cos (toRadians_real lat2) * (sin ?y)\<^sup>2"
      using c by simp
    ultimately show ?thesis unfolding a by linarith
  next
    case True
    with ne have "lng2 - lng1 \<noteq> 0" by simp
    then have "sin ?y \<noteq> 0" using assms(5)
      by (intro sin_nonzero toRadians_real_nonzero toRadians_real_half_bound)
    then have "0 < (sin ?y)\<^sup>2" by simp
    then have "0 < cos (toRadians_real lat1) * cos (toRadians_real lat2) * (sin ?y)\<^sup>2"
      using c by simp
    moreover have "0 \<le> (sin ?x)\<^sup>2" by simp
    ultimately show ?thesis unfolding a by linarith
  qed
qed

lemma atan2_real_pos: "0 < y \<Longrightarrow> 0 \<le> x \<Longrightarrow> 0 < atan2_real y x"
  by (auto simp: atan2_real_def)

lemma haversine_real_pos:
  assumes "- 90 < lat1" "lat1 < 90" "- 90 < lat2" "lat2 < 90" "\<bar>lng2 - lng1\<bar> < 360"
    and "lat1 \<noteq> lat2 \<or> lng1 \<noteq> lng2"
  shows "0 < haversine_real lat1 lng1 lat2 lng2"
  using haversine_a_real_pos [OF assms] haversine_a_real_range [of lat1 lng1 lat2 lng2]
  by (simp add: haversine_real_a atan2_real_pos)

lemma rounded_exact: "rounded exact_platform x = Num x"
  by (simp add: rounded_def exact_platform_def)

lemma toRadians_exact: "toRadians exact_platform (Num v) = Num (toRadians_real v)"
  by (simp add: toRadians_def toRadians_real_def Math_PI_def rounded_exact)
     (simp add: exact_platform_def)

lemma haversine_a_exact:
  "haversine_a exact_platform (Num lat1) (Num lng1) (Num lat2) (Num lng2) =
     Num (haversine_a_real lat1 lng1 lat2 lng2)"
  by (simp add: haversine_a_def haversine_a_real_def Let_def rounded_exact toRadians_exact)
     (simp add: exact_platform_def)

lemma haversineDistance_exact:
  "haversineDistance exact_platform (Num lat1) (Num lng1) (Num lat2) (Num lng2) =
     Num (haversine_real lat1 lng1 lat2 lng2)"
proof -
  have r: "0 \<le> haversine_a_real lat1 lng1 lat2 lng2" "haversine_a_real lat1 lng1 lat2 lng2 \<le> 1"
    using haversine_a_real_range [of lat1 lng1 lat2 lng2] by simp_all
  then show ?thesis
    by (simp add: haversineDistance_a haversine_a_exact rounded_exact haversine_real_def)
       (simp add: exact_platform_def)
qed

lemma atan2_real_nonneg_any: "0 \<le> y \<Longrightarrow> 0 \<le> atan2_real y x"
proof -
  assume y: "0 \<le> y"
  have "- (pi / 2) < arctan (y / x)" by (rule arctan_lbound)
  then have "0 \<le> arctan (y / x) + pi" using pi_gt_zero by linarith
  then show ?thesis using y by (auto simp: atan2_real_def zero_le_divide_iff)
qed

lemma ieee_exact: "ieee_platform exact_platform"
  by (simp add: ieee_platform_def exact_platform_def atan2_real_nonneg_any)
     (simp add: atan2_real_def)







lemma example_candidates:
  "REGION_CANDIDATES example_geo =
        [\<lparr>region_id = ''usEast'', name = ''US East'', lat = Num 39, lng = Num (-77)\<rparr>,
         \<lparr>region_id = ''usWest'', name = ''US West'', lat = Num 37, lng = Num (-122)\<rparr>,
         \<lparr>region_id = ''euWest'', name = ''EU West'', lat = Num 53, lng = Num (-6)\<rparr>,
         \<lparr>region_id = ''euCentral'', name = ''EU Central'', lat = Num 50, lng = Num 8\<rparr>,
         \<lparr>region_id = ''asiaPacific'', name = ''Asia Pacific'', lat = Num 1, lng = Num 103\<rparr>,
         \<lparr>region_id = ''asiaEast'', name = ''Asia East'', lat = Num 35, lng = Num 139\<rparr>,
         \<lparr>region_id = ''southAmerica'', name = ''South America'', lat = Num (-23), lng = Num (-46)\<rparr>,
         \<lparr>region_id = ''africa'', name = ''Africa'', lat = Num (-26), lng = Num 28\<rparr>,
         \<lparr>region_id = ''oceania'', name = ''Oceania'', lat = Num (-33), lng = Num 151\<rparr>]"
  by (simp add: REGION_CANDIDATES_def example_geo_def)
















text \<open>
  Claim C5. At the reference coordinate of a catalogue region \<open>R\<close> other than the
  sentinel, \<open>nearestRegion\<close> returns \<open>R\<close>, provided no region before \<open>R\<close> in catalogue
  order lies at distance zero from it. The coordinates of \<open>R\<close> are finite numbers (its
  latitude also once converted to radians) and the platform has the facts of
  \<open>ieee_platform\<close>.
\<close>

theorem nearestRegion_reference_point:
  assumes p: "ieee_platform pf"
    and i: "i < length (REGION_CANDIDATES g)"
    and t: "Number_isFinite (toRadians pf (lat (REGION_CANDIDATES g ! i)))"
    and l: "Number_isFinite (lng (REGION_CANDIDATES g ! i))"
    and others: "\<forall>j<i. calculateRegionDistance pf (REGION_CANDIDATES g ! i) (REGION_CANDIDATES g ! j) \<noteq> Num 0"
  shows "nearestRegion pf g (lat (REGION_CANDIDATES g ! i)) (lng (REGION_CANDIDATES g ! i)) =
     Some (REGION_CANDIDATES g ! i)"
proof -
  let ?cs = "REGION_CANDIDATES g"
  let ?D = "\<lambda>r. haversineDistance pf (lat (?cs ! i)) (lng (?cs ! i)) (lat r) (lng r)"
  have zero: "?D (?cs ! i) = Num 0"
    using calculateRegionDistance_same [OF p t l] by (simp add: calculateRegionDistance_def)
  from nearest_loop_initial [of pf "lat (?cs ! i)" "lng (?cs ! i)" ?cs "FALLBACK_REGION g"]
  show ?thesis
  proof (elim disjE conjE exE)
    assume "\<forall>r\<in>set ?cs. \<forall>e. ?D r \<noteq> Num e"
    with i zero show ?thesis by (metis nth_mem)
  next
    fix k d
    assume k: "k < length ?cs"
      and r: "nearest_loop pf (lat (?cs ! i)) (lng (?cs ! i)) ?cs (FALLBACK_REGION g) POSITIVE_INFINITY =
          Some (?cs ! k)"
      and dk: "?D (?cs ! k) = Num d"
      and mn: "\<forall>j<length ?cs. \<forall>e. ?D (?cs ! j) = Num e \<longrightarrow> d \<le> e"
      and fs: "\<forall>j<k. \<forall>e. ?D (?cs ! j) = Num e \<longrightarrow> d < e"
    have "d \<le> 0" using mn i zero by blast
    moreover have "0 \<le> d" using haversineDistance_nonneg [OF p dk] .
    ultimately have d0: "d = 0" by simp
    have "\<not> k < i" using others dk d0 by (auto simp: calculateRegionDistance_def)
    moreover have "\<not> i < k" using fs zero d0 by fastforce
    ultimately have "k = i" by simp
    with r show ?thesis by (simp add: nearestRegion_def)
  qed
qed

theorem nearestRegion_reference_point_witness:
  "ieee_platform exact_platform \<and>
   5 < length (REGION_CANDIDATES example_geo) \<and>
   REGION_CANDIDATES example_geo ! 5 =
     \<lparr>region_id = ''asiaEast'', name = ''Asia East'', lat = Num 35, lng = Num 139\<rparr> \<and>
   Number_isFinite (toRadians exact_platform (Num 35)) \<and> Number_isFinite (Num 139) \<and>
   list_all (\<lambda>j. calculateRegionDistance exact_platform (REGION_CANDIDATES example_geo ! 5)
                   (REGION_CANDIDATES example_geo ! j) \<noteq> Num 0) [0, 1, 2, 3, 4] \<and>
   nearestRegion exact_platform example_geo (Num 35) (Num 139) =
     Some \<lparr>region_id = ''asiaEast'', name = ''Asia East'', lat = Num 35, lng = Num 139\<rparr>"
proof -
  have a: "5 < length (REGION_CANDIDATES example_geo)" by (simp add: example_candidates)
  have b: "REGION_CANDIDATES example_geo ! 5 =
      \<lparr>region_id = ''asiaEast'', name = ''Asia East'', lat = Num 35, lng = Num 139\<rparr>"
    by (simp add: example_candidates)
  have t: "Number_isFinite (toRadians exact_platform (Num 35))" by (simp add: toRadians_exact)
  have l: "Number_isFinite (Num 139)" by simp
  have p: "0 < haversine_real 35 139 39 (-77)" "0 < haversine_real 35 139 37 (-122)"
    "0 < haversine_real 35 139 53 (-6)" "0 < haversine_real 35 139 50 8"
    "0 < haversine_real 35 139 1 103"
    by (rule haversine_real_pos; simp)+
  have c: "list_all (\<lambda>j. calculateRegionDistance exact_platform (REGION_CANDIDATES example_geo ! 5)
                   (REGION_CANDIDATES example_geo ! j) \<noteq> Num 0) [0, 1, 2, 3, 4]"
    using p by (simp add: example_candidates calculateRegionDistance_def haversineDistance_exact)
  have d: "\<forall>j<5. calculateRegionDistance exact_platform (REGION_CANDIDATES example_geo ! 5)
                   (REGION_CANDIDATES example_geo ! j) \<noteq> Num 0"
  proof (intro allI impI)
    fix j :: nat assume "j < 5"
    then have "j \<in> set [0, 1, 2, 3, 4]" by auto
    with c show "calculateRegionDistance exact_platform (REGION_CANDIDATES example_geo ! 5)
                   (REGION_CANDIDATES example_geo ! j) \<noteq> Num 0"
      unfolding list_all_iff by blast
  qed
  from nearestRegion_reference_point [OF ieee_exact a _ _ d] b t l
  have "nearestRegion exact_platform example_geo (Num 35) (Num 139) =
      Some \<lparr>region_id = ''asiaEast'', name = ''Asia East'', lat = Num 35, lng = Num 139\<rparr>"
    by simp
  with ieee_exact a b t l c show ?thesis by blast
qed

subsection \<open>Region detection\<close>

lemma matcher_loop_member: "matcher_loop cands tz ms = Some r \<Longrightarrow> r \<in> set cands"
  by (induction ms) (auto simp: find_Some_iff split: if_splits option.splits)

lemma FALLBACK_REGION_member:
  "REGION_CANDIDATES g \<noteq> [] \<Longrightarrow> \<exists>r. FALLBACK_REGION g = Some r \<and> r \<in> set (REGION_CANDIDATES g)"
  by (cases "REGION_CANDIDATES g")
     (auto simp: FALLBACK_REGION_def first_elem_def find_Some_iff split: option.splits)

lemma nearestRegion_member:
  assumes "REGION_CANDIDATES g \<noteq> []" and "nearestRegion pf g qlat qlng = Some r"
  shows "r \<in> set (REGION_CANDIDATES g)"
proof -
  from assms(2) have "FALLBACK_REGION g = Some r \<or> r \<in> set (REGION_CANDIDATES g)"
    unfolding nearestRegion_def by (rule nearest_loop_member)
  with FALLBACK_REGION_member [OF assms(1)] show ?thesis by auto
qed

lemma detectUserRegion_member:
  assumes "REGION_CANDIDATES g \<noteq> []"
  shows "\<exists>r. region (detectUserRegion pf g env) = Some r \<and> r \<in> set (REGION_CANDIDATES g)"
proof (cases "detectFromBrowserGeolocation pf g env")
  case (Some r)
  then have "r \<in> set (REGION_CANDIDATES g)"
    by (auto simp: detectFromBrowserGeolocation_def split: geolocation_outcome.splits
        dest: nearestRegion_member [OF assms])
  with Some show ?thesis by (simp add: detectUserRegion_def)
next
  case None
  show ?thesis
  proof (cases "detectFromTimezone g env")
    case (Some r)
    then have "r \<in> set (REGION_CANDIDATES g)"
      by (auto simp: detectFromTimezone_def inferRegionFromTimezone_def
          split: intl_outcome.splits if_splits dest: matcher_loop_member)
    with Some None show ?thesis by (simp add: detectUserRegion_def)
  next
    case n: None
    with None FALLBACK_REGION_member [OF assms] show ?thesis
      by (simp add: detectUserRegion_def)
  qed
qed

lemma FALLBACK_REGION_usEast_or_first:
  "REGION_CANDIDATES g \<noteq> [] \<Longrightarrow>
   FALLBACK_REGION g =
     (case find (\<lambda>r. region_id r = ''usEast'') (REGION_CANDIDATES g) of
        Some r \<Rightarrow> Some r
      | None \<Rightarrow> Some (hd (REGION_CANDIDATES g)))"
  by (cases "REGION_CANDIDATES g")
     (auto simp: FALLBACK_REGION_def first_elem_def split: option.splits)

text \<open>
  Claim C9. On a catalogue with at least one region other than the sentinel,
  \<open>detectUserRegion\<close> always yields a region of the catalogue that is not the sentinel;
  when geolocation is unavailable or its request is rejected and no timezone rule
  matches (or there is no timezone to read), the result has source \<open>fallback\<close> and its
  region is the candidate with id \<open>usEast\<close>, or the first candidate when there is none.
\<close>

theorem detectUserRegion_total:
  assumes "REGION_CANDIDATES g \<noteq> []"
  shows "(\<exists>r. region (detectUserRegion pf g env) = Some r \<and> r \<in> set (REGION_CANDIDATES g) \<and>
            r \<in> set (GEO_REGIONS g) \<and> region_id r \<noteq> UNKNOWN_REGION_ID g) \<and>
     ((geolocation env = Unavailable \<or> geolocation env = Rejected) \<and>
      (intl env = NoIntl \<or>
       (\<exists>tz. intl env = TimeZone tz \<and> find (\<lambda>m. test m (toLowerCase tz)) matchers = None)) \<longrightarrow>
        source (detectUserRegion pf g env) = Fallback \<and>
        region (detectUserRegion pf g env) =
          (case find (\<lambda>r. region_id r = ''usEast'') (REGION_CANDIDATES g) of
             Some r \<Rightarrow> Some r
           | None \<Rightarrow> Some (hd (REGION_CANDIDATES g))))"
proof (intro conjI impI)
  from detectUserRegion_member [OF assms, of pf env]
  obtain r where "region (detectUserRegion pf g env) = Some r" "r \<in> set (REGION_CANDIDATES g)"
    by blast
  then show "\<exists>r. region (detectUserRegion pf g env) = Some r \<and> r \<in> set (REGION_CANDIDATES g) \<and>
            r \<in> set (GEO_REGIONS g) \<and> region_id r \<noteq> UNKNOWN_REGION_ID g"
    by (auto simp: REGION_CANDIDATES_def)
next
  assume h: "(geolocation env = Unavailable \<or> geolocation env = Rejected) \<and>
      (intl env = NoIntl \<or>
       (\<exists>tz. intl env = TimeZone tz \<and> find (\<lambda>m. test m (toLowerCase tz)) matchers = None))"
  then have b: "detectFromBrowserGeolocation pf g env = None"
    by (auto simp: detectFromBrowserGeolocation_def)
  from h have t: "detectFromTimezone g env = None"
    by (auto simp: detectFromTimezone_def inferRegionFromTimezone_def matcher_loop_no_match)
  from b t show "source (detectUserRegion pf g env) = Fallback"
    by (simp add: detectUserRegion_def)
  from b t show "region (detectUserRegion pf g env) =
          (case find (\<lambda>r. region_id r = ''usEast'') (REGION_CANDIDATES g) of
             Some r \<Rightarrow> Some r
           | None \<Rightarrow> Some (hd (REGION_CANDIDATES g)))"
    by (simp add: detectUserRegion_def FALLBACK_REGION_usEast_or_first [OF assms])
qed

theorem detectUserRegion_total_witness:
  "REGION_CANDIDATES example_geo \<noteq> [] \<and>
   find (\<lambda>m. test m (toLowerCase ''UTC'')) matchers = None \<and>
   detectUserRegion exact_platform example_geo \<lparr>geolocation = Rejected, intl = TimeZone ''UTC''\<rparr> =
     \<lparr>region = Some \<lparr>region_id = ''usEast'', name = ''US East'', lat = Num 39, lng = Num (-77)\<rparr>, source = Fallback\<rparr>"
proof -
  let ?env = "\<lparr>geolocation = Rejected, intl = TimeZone ''UTC''\<rparr>"
  have ne: "REGION_CANDIDATES example_geo \<noteq> []" by (simp add: example_candidates)
  have c: "find (\<lambda>m. test m (toLowerCase ''UTC'')) matchers = None"
    using utc_tests by (simp add: find_None_iff list_all_iff)
  from detectUserRegion_total [OF ne, where env = ?env and pf = exact_platform] c
  have "source (detectUserRegion exact_platform example_geo ?env) = Fallback \<and>
        region (detectUserRegion exact_platform example_geo ?env) =
          Some \<lparr>region_id = ''usEast'', name = ''US East'', lat = Num 39, lng = Num (-77)\<rparr>"
    by (simp add: example_candidates)
  then have "detectUserRegion exact_platform example_geo ?env =
     \<lparr>region = Some \<lparr>region_id = ''usEast'', name = ''US East'', lat = Num 39, lng = Num (-77)\<rparr>, source = Fallback\<rparr>"
    by (cases "detectUserRegion exact_platform example_geo ?env") simp
  with ne c show ?thesis by blast
qed

section \<open>Properties of the reputation store\<close>

lemma peer_score_record_same:
  "peer_score c (record_outcome c store p out now) p =
     (case out of
        Success \<Rightarrow> peer_score c store p + success_step c * (1 - peer_score c store p)
      | Failure \<Rightarrow> peer_score c store p - failure_step c * peer_score c store p
      | Timeout \<Rightarrow> peer_score c store p - timeout_step c * peer_score c store p)"
  by (cases out)
     (simp_all add: peer_score_def record_outcome_def entry_of_def new_entry_def split: option.splits)

lemma peer_score_record_other:
  "q \<noteq> p \<Longrightarrow> peer_score c (record_outcome c store p out now) q = peer_score c store q"
  by (simp add: peer_score_def record_outcome_def)

lemma timeout_step_bounds:
  assumes "valid_config c"
  shows "0 < timeout_step c" "timeout_step c < failure_step c" "timeout_step c < 1"
proof -
  have r: "0 < Rep_proper_fraction (timeout_share c)" "Rep_proper_fraction (timeout_share c) < 1"
    using Rep_proper_fraction [of "timeout_share c"] by simp_all
  have f: "0 < failure_step c" "failure_step c < 1" using assms by (simp_all add: valid_config_def)
  show "0 < timeout_step c" using r f by (simp add: timeout_step_def)
  have "Rep_proper_fraction (timeout_share c) * failure_step c < 1 * failure_step c"
    using r f by (intro mult_strict_right_mono) simp_all
  then show "timeout_step c < failure_step c" by (simp add: timeout_step_def)
  then show "timeout_step c < 1" using f by simp
qed

lemma example_timeout_step: "timeout_step example_config = 1 / 4"
  by (simp add: timeout_step_def example_config_def Abs_proper_fraction_inverse)

lemma toward_one_open: "0 < a \<Longrightarrow> a < 1 \<Longrightarrow> 0 < x \<Longrightarrow> x < 1 \<Longrightarrow> 0 < x + a * (1 - x) \<and> x + a * (1 - x) < 1"
  for a x :: real
proof -
  assume a: "0 < a" "a < 1" and x: "0 < x" "x < 1"
  have h1: "0 < a * (1 - x)" using a x by simp
  have "a * (1 - x) < 1 * (1 - x)" using a x by (intro mult_strict_right_mono) simp_all
  then have h2: "a * (1 - x) < 1 - x" by simp
  from h1 h2 x show ?thesis by linarith
qed

lemma toward_zero_open: "0 < b \<Longrightarrow> b < 1 \<Longrightarrow> 0 < x \<Longrightarrow> x < 1 \<Longrightarrow> 0 < x - b * x \<and> x - b * x < 1"
  for b x :: real
proof -
  assume b: "0 < b" "b < 1" and x: "0 < x" "x < 1"
  have h1: "0 < b * x" using b x by simp
  have "b * x < 1 * x" using b x by (intro mult_strict_right_mono) simp_all
  then have h2: "b * x < x" by simp
  from h1 h2 x show ?thesis by linarith
qed

lemma scores_open_empty: "valid_config c \<Longrightarrow> scores_open c Map.empty"
  by (simp add: scores_open_def peer_score_def valid_config_def)

lemma scores_open_record:
  assumes "valid_config c" "scores_open c store"
  shows "scores_open c (record_outcome c store p out now)"
  unfolding scores_open_def
proof
  fix q
  show "0 < peer_score c (record_outcome c store p out now) q \<and>
        peer_score c (record_outcome c store p out now) q < 1"
  proof (cases "q = p")
    case False
    then show ?thesis using assms(2) by (simp add: peer_score_record_other scores_open_def)
  next
    case True
    have x: "0 < peer_score c store p" "peer_score c store p < 1"
      using assms(2) by (simp_all add: scores_open_def)
    have f: "0 < failure_step c" using assms(1) by (simp add: valid_config_def)
    show ?thesis using assms(1) x f timeout_step_bounds [OF assms(1)]
      unfolding True peer_score_record_same
      by (cases out) (simp_all add: valid_config_def toward_one_open toward_zero_open)
  qed
qed

lemma scores_open_record_all:
  "valid_config c \<Longrightarrow> scores_open c store \<Longrightarrow> scores_open c (record_all c store evs)"
  by (induction c store evs rule: record_all.induct) (simp_all add: scores_open_record)

lemma scores_open_record_repeat:
  "valid_config c \<Longrightarrow> scores_open c store \<Longrightarrow> scores_open c (record_repeat c p out now n store)"
  by (induction n) (simp_all add: scores_open_record)

lemma success_closed_form:
  "1 - peer_score c (record_repeat c p Success now n store) p =
     (1 - success_step c) ^ n * (1 - peer_score c store p)"
proof (induction n)
  case 0
  show ?case by simp
next
  case (Suc n)
  have "1 - peer_score c (record_repeat c p Success now (Suc n) store) p =
      (1 - success_step c) * (1 - peer_score c (record_repeat c p Success now n store) p)"
    by (simp add: peer_score_record_same algebra_simps)
  with Suc show ?case by simp
qed

lemma penalty_closed_form:
  "peer_score c (record_repeat c p Failure now n store) p =
     (1 - failure_step c) ^ n * peer_score c store p"
proof (induction n)
  case 0
  show ?case by simp
next
  case (Suc n)
  have "peer_score c (record_repeat c p Failure now (Suc n) store) p =
      (1 - failure_step c) * peer_score c (record_repeat c p Failure now n store) p"
    by (simp add: peer_score_record_same algebra_simps)
  with Suc show ?case by simp
qed

lemma success_limit:
  assumes "valid_config c"
  shows "(\<lambda>n. peer_score c (record_repeat c p Success now n store) p) \<longlonglongrightarrow> 1"
proof -
  have "0 \<le> 1 - success_step c" "1 - success_step c < 1"
    using assms by (simp_all add: valid_config_def)
  then have "(\<lambda>n. (1 - success_step c) ^ n) \<longlonglongrightarrow> 0" by (rule LIMSEQ_realpow_zero)
  then have "(\<lambda>n. 1 - (1 - success_step c) ^ n * (1 - peer_score c store p)) \<longlonglongrightarrow>
      1 - 0 * (1 - peer_score c store p)"
    by (intro tendsto_diff tendsto_mult tendsto_const)
  moreover have "peer_score c (record_repeat c p Success now n store) p =
      1 - (1 - success_step c) ^ n * (1 - peer_score c store p)" for n
    using success_closed_form [of c p now n store] by simp
  ultimately show ?thesis by simp
qed

lemma failure_limit:
  assumes "valid_config c"
  shows "(\<lambda>n. peer_score c (record_repeat c p Failure now n store) p) \<longlonglongrightarrow> 0"
proof -
  have "0 \<le> 1 - failure_step c" "1 - failure_step c < 1"
    using assms by (simp_all add: valid_config_def)
  then have "(\<lambda>n. (1 - failure_step c) ^ n) \<longlonglongrightarrow> 0" by (rule LIMSEQ_realpow_zero)
  then have "(\<lambda>n. (1 - failure_step c) ^ n * peer_score c store p) \<longlonglongrightarrow>
      0 * peer_score c store p"
    by (intro tendsto_mult tendsto_const)
  then show ?thesis by (simp add: penalty_closed_form)
qed

lemma example_config_valid: "valid_config example_config"
  by (simp add: valid_config_def example_config_def)

text \<open>
  Claim C6. With fractional steps and a neutral score strictly inside the scale, after
  any finite sequence of \<open>record\<close> events from the empty store the score of every peer
  lies in \<open>[0, 1]\<close>; from any such state, repeated \<open>Success\<close> strictly increases a peer's
  score, which stays below 1 after every finite number of steps and tends to 1, and
  repeated \<open>Failure\<close> strictly decreases it, above 0 after every finite number of steps
  and tending to 0.
\<close>

theorem reputation_score_invariant:
  assumes "valid_config c"
  shows "0 \<le> peer_score c (record_all c Map.empty evs) q \<and>
         peer_score c (record_all c Map.empty evs) q \<le> 1 \<and>
         (\<forall>n. peer_score c (record_repeat c p Success now n (record_all c Map.empty evs)) p
                < peer_score c (record_repeat c p Success now (Suc n) (record_all c Map.empty evs)) p \<and>
              peer_score c (record_repeat c p Success now n (record_all c Map.empty evs)) p < 1) \<and>
         (\<lambda>n. peer_score c (record_repeat c p Success now n (record_all c Map.empty evs)) p)
            \<longlonglongrightarrow> 1 \<and>
         (\<forall>n. peer_score c (record_repeat c p Failure now (Suc n) (record_all c Map.empty evs)) p
                < peer_score c (record_repeat c p Failure now n (record_all c Map.empty evs)) p \<and>
              0 < peer_score c (record_repeat c p Failure now n (record_all c Map.empty evs)) p) \<and>
         (\<lambda>n. peer_score c (record_repeat c p Failure now n (record_all c Map.empty evs)) p)
            \<longlonglongrightarrow> 0"
proof -
  let ?s = "record_all c Map.empty evs"
  have inv: "scores_open c ?s"
    using assms by (simp add: scores_open_record_all scores_open_empty)
  have a: "0 < success_step c" and b: "0 < failure_step c"
    using assms by (simp_all add: valid_config_def)
  have bounds: "0 \<le> peer_score c ?s q \<and> peer_score c ?s q \<le> 1"
    using inv by (simp add: scores_open_def less_imp_le)
  have up: "peer_score c (record_repeat c p Success now n ?s) p
                < peer_score c (record_repeat c p Success now (Suc n) ?s) p \<and>
              peer_score c (record_repeat c p Success now n ?s) p < 1" for n
  proof -
    have "scores_open c (record_repeat c p Success now n ?s)"
      using assms inv by (rule scores_open_record_repeat)
    then have x: "peer_score c (record_repeat c p Success now n ?s) p < 1"
      by (simp add: scores_open_def)
    then have "0 < success_step c * (1 - peer_score c (record_repeat c p Success now n ?s) p)"
      using a by simp
    with x show ?thesis by (simp add: peer_score_record_same)
  qed
  have down: "peer_score c (record_repeat c p Failure now (Suc n) ?s) p
                < peer_score c (record_repeat c p Failure now n ?s) p \<and>
              0 < peer_score c (record_repeat c p Failure now n ?s) p" for n
  proof -
    have "scores_open c (record_repeat c p Failure now n ?s)"
      using assms inv by (rule scores_open_record_repeat)
    then have x: "0 < peer_score c (record_repeat c p Failure now n ?s) p"
      by (simp add: scores_open_def)
    then have "0 < failure_step c * peer_score c (record_repeat c p Failure now n ?s) p"
      using b by simp
    with x show ?thesis by (simp add: peer_score_record_same)
  qed
  from bounds up down success_limit [OF assms] failure_limit [OF assms]
  show ?thesis by blast
qed

theorem reputation_score_invariant_witness:
  "valid_config example_config \<and>
   peer_score example_config
     (record_all example_config Map.empty [(''a'', Success, 1), (''a'', Timeout, 2)]) ''a'' = 33 / 80 \<and>
   0 \<le> peer_score example_config
     (record_all example_config Map.empty [(''a'', Success, 1), (''a'', Timeout, 2)]) ''a'' \<and>
   peer_score example_config
     (record_all example_config Map.empty [(''a'', Success, 1), (''a'', Timeout, 2)]) ''a'' \<le> 1 \<and>
   peer_score example_config (record_repeat example_config ''a'' Success 3 0
     (record_all example_config Map.empty [(''a'', Success, 1), (''a'', Timeout, 2)])) ''a''
   < peer_score example_config (record_repeat example_config ''a'' Success 3 (Suc 0)
     (record_all example_config Map.empty [(''a'', Success, 1), (''a'', Timeout, 2)])) ''a''"
proof -
  let ?evs = "[(''a'', Success, 1::nat), (''a'', Timeout, 2)]"
  have v: "valid_config example_config" by (rule example_config_valid)
  have e: "peer_score example_config (record_all example_config Map.empty ?evs) ''a'' = 33 / 80"
    by (simp add: peer_score_record_same example_timeout_step)
       (simp add: peer_score_def example_config_def)
  from reputation_score_invariant [OF v, where evs = ?evs and q = "''a''" and p = "''a''" and now = 3]
    v e
  show ?thesis by blast
qed

section \<open>Properties of the rendezvous channel\<close>

lemma connected_deliver: "connected (deliver m r c) = connected r"
  by (simp add: deliver_def)

lemma connected_foldl_deliver: "connected (foldl (deliver m) r cs) = connected r"
  by (induction cs arbitrary: r) (simp_all add: connected_deliver)

lemma connected_send: "send r a msg = Inr r' \<Longrightarrow> connected r' = connected r"
  by (auto simp: send_def connected_deliver connected_foldl_deliver split: if_splits envelope.splits)

lemma distinct_channel_step: "distinct (connected r) \<Longrightarrow> distinct (connected (channel_step r ev))"
  by (cases ev) (auto simp: register_peer_def disconnect_def distinct_removeAll
      split: sum.splits dest: connected_send)

lemma distinct_foldl_step:
  "distinct (connected r) \<Longrightarrow> distinct (connected (foldl channel_step r evs))"
  by (induction evs arbitrary: r) (simp_all add: distinct_channel_step)

lemma distinct_channel_run: "distinct (connected (channel_run evs))"
  unfolding channel_run_def by (rule distinct_foldl_step) (simp add: initial_rendezvous_def)

lemma inbox_foldl_deliver:
  "distinct cs \<Longrightarrow>
   inbox (foldl (deliver m) r cs) c = (if c \<in> set cs then inbox r c @ [m] else inbox r c)"
proof (induction cs arbitrary: r)
  case Nil
  show ?case by simp
next
  case (Cons x xs)
  then show ?case by (auto simp: deliver_def)
qed

lemma example_run:
  "connected (channel_run example_events) = [''a'', ''b'', ''c'']"
  "inbox (channel_run example_events) = (\<lambda>_. [])"
  by (simp_all add: channel_run_def example_events_def initial_rendezvous_def register_peer_def)

text \<open>
  Claim C7. In every state the channel can reach, a directed message that a connected
  client sends changes no handler but that of the client named in \<open>to\<close>, which receives
  it once when it is connected; a broadcast reaches every other connected client once
  and is not echoed to its sender, nor delivered to a client that is not connected.
\<close>

theorem rendezvous_delivery_scoping:
  "(send (channel_run evs) a (Directed to ty d) = Inr r' \<longrightarrow>
      (\<forall>c. c \<noteq> to \<longrightarrow> inbox r' c = inbox (channel_run evs) c) \<and>
      (to \<in> set (connected (channel_run evs)) \<longrightarrow>
         inbox r' to = inbox (channel_run evs) to @ [\<lparr>sender = a, envelope = Directed to ty d\<rparr>])) \<and>
   (send (channel_run evs) a (Broadcast kind b) = Inr r'' \<longrightarrow>
      inbox r'' a = inbox (channel_run evs) a \<and>
      (\<forall>c. c \<in> set (connected (channel_run evs)) \<and> c \<noteq> a \<longrightarrow>
         inbox r'' c = inbox (channel_run evs) c @ [\<lparr>sender = a, envelope = Broadcast kind b\<rparr>]) \<and>
      (\<forall>c. c \<notin> set (connected (channel_run evs)) \<longrightarrow> inbox r'' c = inbox (channel_run evs) c))"
proof (intro conjI impI)
  assume "send (channel_run evs) a (Directed to ty d) = Inr r'"
  then have r': "r' = (if to \<in> set (connected (channel_run evs))
      then deliver \<lparr>sender = a, envelope = Directed to ty d\<rparr> (channel_run evs) to
      else channel_run evs)"
    by (auto simp: send_def split: if_splits)
  show "\<forall>c. c \<noteq> to \<longrightarrow> inbox r' c = inbox (channel_run evs) c"
    by (simp add: r' deliver_def)
  assume "to \<in> set (connected (channel_run evs))"
  then show "inbox r' to = inbox (channel_run evs) to @ [\<lparr>sender = a, envelope = Directed to ty d\<rparr>]"
    by (simp add: r' deliver_def)
next
  assume "send (channel_run evs) a (Broadcast kind b) = Inr r''"
  then have r'': "r'' = foldl (deliver \<lparr>sender = a, envelope = Broadcast kind b\<rparr>) (channel_run evs)
      (filter (\<lambda>c. c \<noteq> a) (connected (channel_run evs)))"
    by (auto simp: send_def split: if_splits)
  have d: "distinct (filter (\<lambda>c. c \<noteq> a) (connected (channel_run evs)))"
    using distinct_channel_run by (rule distinct_filter)
  show "inbox r'' a = inbox (channel_run evs) a"
    by (simp add: r'' inbox_foldl_deliver [OF d])
  show "\<forall>c. c \<in> set (connected (channel_run evs)) \<and> c \<noteq> a \<longrightarrow>
         inbox r'' c = inbox (channel_run evs) c @ [\<lparr>sender = a, envelope = Broadcast kind b\<rparr>]"
    by (simp add: r'' inbox_foldl_deliver [OF d])
  show "\<forall>c. c \<notin> set (connected (channel_run evs)) \<longrightarrow> inbox r'' c = inbox (channel_run evs) c"
    by (simp add: r'' inbox_foldl_deliver [OF d])
qed

theorem rendezvous_delivery_scoping_witness:
  "(\<exists>r'. send (channel_run example_events) ''a'' (Directed ''b'' ''test'' ''hello'') = Inr r' \<and>
         inbox r' ''b'' = [\<lparr>sender = ''a'', envelope = Directed ''b'' ''test'' ''hello''\<rparr>] \<and>
         inbox r' ''c'' = [] \<and> inbox r' ''a'' = []) \<and>
   (\<exists>r''. send (channel_run example_events) ''a'' (Broadcast ''broadcast'' ''hello all'') = Inr r'' \<and>
         inbox r'' ''a'' = [] \<and>
         inbox r'' ''b'' = [\<lparr>sender = ''a'', envelope = Broadcast ''broadcast'' ''hello all''\<rparr>] \<and>
         inbox r'' ''c'' = [\<lparr>sender = ''a'', envelope = Broadcast ''broadcast'' ''hello all''\<rparr>])"
proof -
  obtain r' where r': "send (channel_run example_events) ''a'' (Directed ''b'' ''test'' ''hello'') = Inr r'"
    by (simp add: send_def example_run)
  obtain r'' where r'': "send (channel_run example_events) ''a'' (Broadcast ''broadcast'' ''hello all'') = Inr r''"
    by (simp add: send_def example_run)
  from rendezvous_delivery_scoping [of example_events "''a''" "''b''" "''test''" "''hello''" r'
      "''broadcast''" "''hello all''" r''] r' r''
  have "inbox r' ''b'' = [\<lparr>sender = ''a'', envelope = Directed ''b'' ''test'' ''hello''\<rparr>] \<and>
         inbox r' ''c'' = [] \<and> inbox r' ''a'' = [] \<and> inbox r'' ''a'' = [] \<and>
         inbox r'' ''b'' = [\<lparr>sender = ''a'', envelope = Broadcast ''broadcast'' ''hello all''\<rparr>] \<and>
         inbox r'' ''c'' = [\<lparr>sender = ''a'', envelope = Broadcast ''broadcast'' ''hello all''\<rparr>]"
    by (simp add: example_run)
  with r' r'' show ?thesis by blast
qed

section \<open>Properties of the download coordinator\<close>

lemma timeout_scan_length:
  "length (fst (timeout_scan rc dl now ss rep)) = length ss"
  by (induction rc dl now ss rep rule: timeout_scan.induct) (auto split: prod.splits)

lemma timeout_scan_map:
  "fst (timeout_scan rc dl now ss rep) =
     map (\<lambda>s. if deadline_elapsed dl now s then Pending else s) ss"
  by (induction rc dl now ss rep rule: timeout_scan.induct) (auto split: prod.splits)

lemma timeout_scan_status:
  "i < length ss \<Longrightarrow>
   fst (timeout_scan rc dl now ss rep) ! i =
     (if deadline_elapsed dl now (ss ! i) then Pending else ss ! i)"
  by (simp add: timeout_scan_map)

lemma timeout_scan_reputation:
  "snd (timeout_scan rc dl now ss rep) =
     foldl (\<lambda>r q. record_outcome rc r q Timeout now) rep (expired_peers dl now ss)"
  by (induction rc dl now ss rep rule: timeout_scan.induct) (auto split: prod.splits)

lemma expired_peers_member:
  "i < length ss \<Longrightarrow> ss ! i = InFlight p startedAt \<Longrightarrow> startedAt + dl \<le> now \<Longrightarrow>
   p \<in> set (expired_peers dl now ss)"
proof (induction ss arbitrary: i)
  case Nil
  then show ?case by simp
next
  case (Cons s ss)
  show ?case
  proof (cases i)
    case 0
    with Cons.prems show ?thesis by simp
  next
    case (Suc j)
    with Cons have "p \<in> set (expired_peers dl now ss)" by simp
    then show ?thesis by (cases s) simp_all
  qed
qed

lemma timeout_records_score:
  assumes "valid_config rc"
  shows "0 < peer_score rc rep p \<Longrightarrow>
     0 < peer_score rc (foldl (\<lambda>r q. record_outcome rc r q Timeout now) rep ps) p \<and>
     peer_score rc (foldl (\<lambda>r q. record_outcome rc r q Timeout now) rep ps) p \<le> peer_score rc rep p \<and>
     (p \<in> set ps \<longrightarrow>
        peer_score rc (foldl (\<lambda>r q. record_outcome rc r q Timeout now) rep ps) p < peer_score rc rep p)"
proof (induction ps arbitrary: rep)
  case Nil
  then show ?case by simp
next
  case (Cons q ps)
  let ?rep = "record_outcome rc rep q Timeout now"
  have b: "0 < timeout_step rc" "timeout_step rc < 1"
    using timeout_step_bounds [OF assms] by simp_all
  show ?case
  proof (cases "q = p")
    case True
    have m: "0 < timeout_step rc * peer_score rc rep p" using b Cons.prems by simp
    have "timeout_step rc * peer_score rc rep p < 1 * peer_score rc rep p"
      using b Cons.prems by (intro mult_strict_right_mono) simp_all
    then have pos: "0 < peer_score rc ?rep p" and lt: "peer_score rc ?rep p < peer_score rc rep p"
      using m by (simp_all add: True peer_score_record_same)
    from Cons.IH [OF pos] lt show ?thesis by auto
  next
    case False
    then have "peer_score rc ?rep p = peer_score rc rep p"
      by (simp add: peer_score_record_other)
    with Cons.IH [of ?rep] Cons.prems False show ?thesis by auto
  qed
qed

lemma assign_chunk_length: "length (assign_chunk limit cs noted now ss i) = length ss"
  by (simp add: assign_chunk_def split: option.splits)

lemma assign_chunk_other: "j \<noteq> i \<Longrightarrow> assign_chunk limit cs noted now ss i ! j = ss ! j"
  by (simp add: assign_chunk_def split: option.splits)

lemma assign_upto_Suc:
  "assign_upto limit cs noted now ss (Suc n) =
     assign_chunk limit cs noted now (assign_upto limit cs noted now ss n) n"
  by (simp add: assign_upto_def)

lemma assign_upto_length: "length (assign_upto limit cs noted now ss n) = length ss"
  by (induction n) (simp_all add: assign_upto_Suc assign_chunk_length, simp add: assign_upto_def)

lemma assign_upto_later: "n \<le> j \<Longrightarrow> assign_upto limit cs noted now ss n ! j = ss ! j"
  by (induction n) (simp_all add: assign_upto_Suc assign_chunk_other, simp add: assign_upto_def)

lemma assign_upto_at:
  "i < n \<Longrightarrow> assign_upto limit cs noted now ss n ! i =
     assign_chunk limit cs noted now (assign_upto limit cs noted now ss i) i ! i"
proof (induction n)
  case 0
  then show ?case by simp
next
  case (Suc n)
  show ?case
  proof (cases "i = n")
    case True
    then show ?thesis by (simp add: assign_upto_Suc)
  next
    case False
    with Suc.prems have "i < n" by simp
    with Suc.IH False show ?thesis by (simp add: assign_upto_Suc assign_chunk_other)
  qed
qed

lemma assign_chunk_pending:
  "i < length ss \<Longrightarrow> ss ! i = Pending \<Longrightarrow>
   assign_chunk limit cs noted now ss i ! i =
     (case find (\<lambda>q. eligible limit ss q \<and> \<not> retry_barred cs (noted i) q) cs of
        None \<Rightarrow> Pending
      | Some q \<Rightarrow> InFlight q now)"
  by (simp add: assign_chunk_def split: option.splits)

lemma better_ranked_barred: "better_ranked cs q p \<Longrightarrow> retry_barred cs (Some p) p"
proof -
  assume b: "better_ranked cs q p"
  then have "q \<in> set cs" unfolding better_ranked_def by (rule set_takeWhileD [THEN conjunct1])
  with b show ?thesis by (auto simp: retry_barred_def list_ex_iff)
qed

lemma find_not_barred:
  "retry_barred cs noted p \<Longrightarrow> find (\<lambda>q. P q \<and> \<not> retry_barred cs noted q) xs \<noteq> Some p"
  by (auto simp: find_Some_iff)

lemma timeout_pass_status:
  "chunkStatus (task (timeout_pass cfg now co)) =
     fst (timeout_scan (reputation_cfg cfg) (chunk_deadline cfg (task co)) now
            (chunkStatus (task co)) (reputation co))"
  by (simp add: timeout_pass_def split: prod.splits)

lemma timeout_pass_reputation:
  "reputation (timeout_pass cfg now co) =
     foldl (\<lambda>r q. record_outcome (reputation_cfg cfg) r q Timeout now) (reputation co)
       (expired_peers (chunk_deadline cfg (task co)) now (chunkStatus (task co)))"
  using timeout_scan_reputation [of "reputation_cfg cfg" "chunk_deadline cfg (task co)" now
      "chunkStatus (task co)" "reputation co"]
  by (auto simp: timeout_pass_def split: prod.splits)

lemma timeout_pass_timedOut:
  "timedOut (timeout_pass cfg now co) =
     note_timeouts (chunk_deadline cfg (task co)) now (chunkStatus (task co)) (timedOut co)"
  by (simp add: timeout_pass_def split: prod.splits)

lemma assignment_pass_status:
  "chunkStatus (task (assignment_pass cfg sel now co)) =
     assign_upto (peer_limit cfg) (sel (reputation co)) (timedOut co) now
       (chunkStatus (task co)) (length (chunkStatus (task co)))"
  by (simp add: assignment_pass_def)

lemma assignment_pass_timedOut: "timedOut (assignment_pass cfg sel now co) i = None"
  by (simp add: assignment_pass_def)

text \<open>
  Claim C8. A chunk in flight to a peer \<open>p\<close> whose deadline has elapsed is \<open>Pending\<close>
  after the timeout handling; the reputation store has then received one
  \<open>record(q, Timeout)\<close> for the assignee of each such chunk, \<open>p\<close> among them, and the
  score of \<open>p\<close> has dropped. The next assignment pass takes the chunk up again: it goes
  to the first candidate of the freshly derived list that is eligible and not barred, or
  stays \<open>Pending\<close> when there is none; and it does not go back to \<open>p\<close> in that pass when
  the list ranks any candidate above \<open>p\<close>, eligible or not. A timeout lowers a score by
  strictly less than a failure does.
\<close>

theorem coordinator_timeout_handling:
  assumes "valid_config (reputation_cfg cfg)"
    and "i < length (chunkStatus (task co))"
    and "chunkStatus (task co) ! i = InFlight p startedAt"
    and "startedAt + chunk_deadline cfg (task co) \<le> now"
    and "0 < peer_score (reputation_cfg cfg) (reputation co) p"
  shows "chunkStatus (task (timeout_pass cfg now co)) ! i = Pending \<and>
     reputation (timeout_pass cfg now co) =
       foldl (\<lambda>r q. record_outcome (reputation_cfg cfg) r q Timeout now) (reputation co)
         (expired_peers (chunk_deadline cfg (task co)) now (chunkStatus (task co))) \<and>
     p \<in> set (expired_peers (chunk_deadline cfg (task co)) now (chunkStatus (task co))) \<and>
     peer_score (reputation_cfg cfg) (reputation (timeout_pass cfg now co)) p
       < peer_score (reputation_cfg cfg) (reputation co) p \<and>
     (let co1 = timeout_pass cfg now co;
          candidates = selectCandidates (reputation co1);
          before = assign_upto (peer_limit cfg) candidates (timedOut co1) next_pass
                     (chunkStatus (task co1)) i;
          after = chunkStatus (task (assignment_pass cfg selectCandidates next_pass co1))
      in after ! i =
           (case find (\<lambda>q. eligible (peer_limit cfg) before q \<and>
                            \<not> retry_barred candidates (Some p) q) candidates of
              None \<Rightarrow> Pending
            | Some q \<Rightarrow> InFlight q next_pass) \<and>
         ((\<exists>q. better_ranked candidates q p) \<longrightarrow> (\<forall>t. after ! i \<noteq> InFlight p t))) \<and>
     peer_score (reputation_cfg cfg) (reputation co) p -
       peer_score (reputation_cfg cfg)
         (record_outcome (reputation_cfg cfg) (reputation co) p Timeout now) p
     < peer_score (reputation_cfg cfg) (reputation co) p -
       peer_score (reputation_cfg cfg)
         (record_outcome (reputation_cfg cfg) (reputation co) p Failure now) p"
proof -
  let ?rc = "reputation_cfg cfg"
  let ?dl = "chunk_deadline cfg (task co)"
  let ?ss = "chunkStatus (task co)"
  let ?co1 = "timeout_pass cfg now co"
  let ?ss1 = "chunkStatus (task ?co1)"
  let ?cs = "selectCandidates (reputation ?co1)"
  let ?before = "assign_upto (peer_limit cfg) ?cs (timedOut ?co1) next_pass ?ss1 i"
  let ?after = "chunkStatus (task (assignment_pass cfg selectCandidates next_pass ?co1))"
  let ?free = "\<lambda>q. eligible (peer_limit cfg) ?before q \<and> \<not> retry_barred ?cs (Some p) q"
  have len1: "length ?ss1 = length ?ss"
    by (simp add: timeout_pass_status timeout_scan_length)
  have pend: "?ss1 ! i = Pending"
    using assms(2,3,4) by (simp add: timeout_pass_status timeout_scan_status)
  have noted: "timedOut ?co1 i = Some p"
    using assms(2,3,4) by (simp add: timeout_pass_timedOut note_timeouts_def)
  have rep: "reputation ?co1 =
       foldl (\<lambda>r q. record_outcome ?rc r q Timeout now) (reputation co) (expired_peers ?dl now ?ss)"
    by (rule timeout_pass_reputation)
  have mem: "p \<in> set (expired_peers ?dl now ?ss)"
    using assms(2,3,4) by (rule expired_peers_member)
  have dec: "peer_score ?rc (reputation ?co1) p < peer_score ?rc (reputation co) p"
    using timeout_records_score [OF assms(1) assms(5), of now "expired_peers ?dl now ?ss"] mem
    unfolding rep by blast
  have bl: "length ?before = length ?ss1" by (rule assign_upto_length)
  have bp: "?before ! i = Pending" using pend by (simp add: assign_upto_later)
  have "?after ! i = assign_chunk (peer_limit cfg) ?cs (timedOut ?co1) next_pass ?before i ! i"
    using assms(2) len1 by (simp add: assignment_pass_status assign_upto_at)
  then have turn: "?after ! i =
      (case find ?free ?cs of None \<Rightarrow> Pending | Some q \<Rightarrow> InFlight q next_pass)"
    using assms(2) len1 bl bp by (simp add: assign_chunk_pending noted)
  have other: "(\<exists>q. better_ranked ?cs q p) \<longrightarrow> (\<forall>t. ?after ! i \<noteq> InFlight p t)"
  proof (intro impI allI)
    fix t
    assume "\<exists>q. better_ranked ?cs q p"
    then have "retry_barred ?cs (Some p) p" using better_ranked_barred by blast
    then have "find ?free ?cs \<noteq> Some p" by (rule find_not_barred)
    then show "?after ! i \<noteq> InFlight p t" by (simp add: turn split: option.splits)
  qed
  have steps: "timeout_step ?rc < failure_step ?rc"
    using assms(1) by (rule timeout_step_bounds)
  then have "timeout_step ?rc * peer_score ?rc (reputation co) p
      < failure_step ?rc * peer_score ?rc (reputation co) p"
    using assms(5) by (intro mult_strict_right_mono)
  then have pen: "peer_score ?rc (reputation co) p -
       peer_score ?rc (record_outcome ?rc (reputation co) p Timeout now) p
     < peer_score ?rc (reputation co) p -
       peer_score ?rc (record_outcome ?rc (reputation co) p Failure now) p"
    by (simp add: peer_score_record_same)
  from pend rep mem dec turn other pen show ?thesis
    unfolding Let_def by (intro conjI)
qed

theorem coordinator_timeout_handling_witness:
  "valid_config (reputation_cfg example_coordinator_config) \<and>
   chunkStatus (task example_coordinator) ! 0 = InFlight ''slow'' 0 \<and>
   0 + chunk_deadline example_coordinator_config (task example_coordinator) \<le> 20 \<and>
   0 < peer_score (reputation_cfg example_coordinator_config) (reputation example_coordinator) ''slow'' \<and>
   chunkStatus (task (timeout_pass example_coordinator_config 20 example_coordinator)) ! 0 = Pending \<and>
   peer_score (reputation_cfg example_coordinator_config)
     (reputation (timeout_pass example_coordinator_config 20 example_coordinator)) ''slow''
     < peer_score (reputation_cfg example_coordinator_config) (reputation example_coordinator) ''slow'' \<and>
   chunkStatus (task (assignment_pass example_coordinator_config (\<lambda>_. [''fast'', ''slow'']) 21
      (timeout_pass example_coordinator_config 20 example_coordinator))) ! 0 = InFlight ''fast'' 21 \<and>
   chunkStatus (task busy_coordinator) = [InFlight ''slow'' 0, InFlight ''fast'' 15] \<and>
   chunkStatus (task (timeout_pass example_coordinator_config 20 busy_coordinator)) =
     [Pending, InFlight ''fast'' 15] \<and>
   better_ranked [''fast'', ''slow''] ''fast'' ''slow'' \<and>
   \<not> eligible (peer_limit example_coordinator_config) [Pending, InFlight ''fast'' 15] ''fast'' \<and>
   chunkStatus (task (assignment_pass example_coordinator_config (\<lambda>_. [''fast'', ''slow'']) 21
      (timeout_pass example_coordinator_config 20 busy_coordinator))) ! 0 = Pending"
proof -
  let ?cfg = example_coordinator_config and ?co = example_coordinator and ?bu = busy_coordinator
  have h1: "valid_config (reputation_cfg ?cfg)"
    by (simp add: example_coordinator_config_def example_config_valid)
  have h2: "0 < length (chunkStatus (task ?co))" by (simp add: example_coordinator_def)
  have h3: "chunkStatus (task ?co) ! 0 = InFlight ''slow'' 0" by (simp add: example_coordinator_def)
  have h4: "0 + chunk_deadline ?cfg (task ?co) \<le> 20"
    by (simp add: chunk_deadline_def example_coordinator_def example_coordinator_config_def)
  have h5: "0 < peer_score (reputation_cfg ?cfg) (reputation ?co) ''slow''"
    by (simp add: peer_score_def example_coordinator_def example_coordinator_config_def
        example_config_def)
  have s1: "chunkStatus (task (timeout_pass ?cfg 20 ?co)) = [Pending, Pending]"
    using h4 by (simp add: timeout_pass_def example_coordinator_def split: prod.splits)
  have e: "eligible (peer_limit ?cfg) [Pending, Pending] ''fast''"
    by (simp add: eligible_def in_flight_count_def example_coordinator_config_def)
  have nb: "\<not> retry_barred [''fast'', ''slow''] (Some ''slow'') ''fast''"
    by (simp add: retry_barred_def)
  note t = coordinator_timeout_handling [OF h1 h2 h3 h4 h5, of "\<lambda>_. [''fast'', ''slow'']" 21]
  from t have a: "chunkStatus (task (timeout_pass ?cfg 20 ?co)) ! 0 = Pending"
    by (rule conjunct1)
  from t have b: "peer_score (reputation_cfg ?cfg) (reputation (timeout_pass ?cfg 20 ?co)) ''slow''
       < peer_score (reputation_cfg ?cfg) (reputation ?co) ''slow''"
    by blast
  from t have "chunkStatus (task (assignment_pass ?cfg (\<lambda>_. [''fast'', ''slow'']) 21
        (timeout_pass ?cfg 20 ?co))) ! 0 =
      (case find (\<lambda>q. eligible (peer_limit ?cfg)
          (assign_upto (peer_limit ?cfg) [''fast'', ''slow''] (timedOut (timeout_pass ?cfg 20 ?co)) 21
             (chunkStatus (task (timeout_pass ?cfg 20 ?co))) 0) q \<and>
            \<not> retry_barred [''fast'', ''slow''] (Some ''slow'') q) [''fast'', ''slow''] of
         None \<Rightarrow> Pending
       | Some q \<Rightarrow> InFlight q 21)"
    unfolding Let_def by blast
  then have c: "chunkStatus (task (assignment_pass ?cfg (\<lambda>_. [''fast'', ''slow'']) 21
        (timeout_pass ?cfg 20 ?co))) ! 0 = InFlight ''fast'' 21"
    using e nb by (simp add: s1 assign_upto_def)
  have g2: "0 < length (chunkStatus (task ?bu))" by (simp add: busy_coordinator_def)
  have g3: "chunkStatus (task ?bu) ! 0 = InFlight ''slow'' 0" by (simp add: busy_coordinator_def)
  have g4: "0 + chunk_deadline ?cfg (task ?bu) \<le> 20"
    by (simp add: chunk_deadline_def busy_coordinator_def example_coordinator_config_def)
  have g5: "0 < peer_score (reputation_cfg ?cfg) (reputation ?bu) ''slow''"
    by (simp add: peer_score_def busy_coordinator_def example_coordinator_config_def
        example_config_def)
  have d: "chunkStatus (task ?bu) = [InFlight ''slow'' 0, InFlight ''fast'' 15]"
    by (simp add: busy_coordinator_def)
  have s2: "chunkStatus (task (timeout_pass ?cfg 20 ?bu)) = [Pending, InFlight ''fast'' 15]"
    by (simp add: timeout_pass_def busy_coordinator_def chunk_deadline_def
        example_coordinator_config_def split: prod.splits)
  have br: "better_ranked [''fast'', ''slow''] ''fast'' ''slow''"
    by (simp add: better_ranked_def)
  have ne: "\<not> eligible (peer_limit ?cfg) [Pending, InFlight ''fast'' 15] ''fast''"
    by (simp add: eligible_def in_flight_count_def example_coordinator_config_def)
  note u = coordinator_timeout_handling [OF h1 g2 g3 g4 g5, of "\<lambda>_. [''fast'', ''slow'']" 21]
  from u have "chunkStatus (task (assignment_pass ?cfg (\<lambda>_. [''fast'', ''slow'']) 21
        (timeout_pass ?cfg 20 ?bu))) ! 0 =
      (case find (\<lambda>q. eligible (peer_limit ?cfg)
          (assign_upto (peer_limit ?cfg) [''fast'', ''slow''] (timedOut (timeout_pass ?cfg 20 ?bu)) 21
             (chunkStatus (task (timeout_pass ?cfg 20 ?bu))) 0) q \<and>
            \<not> retry_barred [''fast'', ''slow''] (Some ''slow'') q) [''fast'', ''slow''] of
         None \<Rightarrow> Pending
       | Some q \<Rightarrow> InFlight q 21)"
    unfolding Let_def by blast
  then have f: "chunkStatus (task (assignment_pass ?cfg (\<lambda>_. [''fast'', ''slow'']) 21
        (timeout_pass ?cfg 20 ?bu))) ! 0 = Pending"
    using ne br by (simp add: s2 assign_upto_def retry_barred_def)
  from h1 h3 h4 h5 a b c d s2 br ne f show ?thesis by blast
qed

end
